theory Spec2Isabelle
  imports Complex_Main "HOL-Library.Sublist"
begin

section \<open>Data model (types.ts)\<close>

text \<open>
  JavaScript strings are \<open>string\<close>. A point in time is the number of milliseconds since the
  epoch, the value a \<open>Date\<close> object holds: the source stores \<open>issuedDate\<close> as the ISO
  rendering \<open>toISOString()\<close> of such a value and reads it back with \<open>new Date(iso)\<close>, which
  returns the same millisecond value, so the model keeps the millisecond value itself.
  A property that may be \<open>null\<close> or missing is an \<open>option\<close>.
\<close>

type_synonym timestamp = int

datatype UserRole = ADMIN | USER

record User =
  id_u :: string
  libraryId :: string
  password :: "string option"
  name_u :: string
  role :: UserRole

text \<open>
  \<open>coverUrl\<close> is declared \<open>string\<close>, but spreading a form whose \<open>coverUrl\<close> key holds
  \<open>undefined\<close> over a book gives a book without a cover (the cast \<open>as Book\<close> is
  unchecked), so it is an option here.
\<close>

record Book =
  id_b :: string
  title :: string
  author :: string
  genre :: string
  coverUrl :: "string option"
  standNumber :: string
  isIssued :: bool
  issuedToUserId :: "string option"
  issuedDate :: "timestamp option"
  description :: "string option"

datatype View = HOME | LOGIN_USER | LOGIN_ADMIN | SIGNUP | SIGNUP_ADMIN | DASHBOARD

record AppState =
  view :: View
  currentUser :: "User option"

text \<open>\<open>Partial<Book>\<close> and \<open>Partial<User>\<close>: every key may be missing (\<open>None\<close>). The key
  \<open>coverUrl\<close> can also be present and hold \<open>undefined\<close> (\<open>Some None\<close>), which matters when the
  form is spread over a book.\<close>

record BookForm =
  id_f :: "string option"
  title_f :: "string option"
  author_f :: "string option"
  genre_f :: "string option"
  coverUrl_f :: "string option option"
  standNumber_f :: "string option"
  isIssued_f :: "bool option"
  issuedToUserId_f :: "string option option"
  issuedDate_f :: "timestamp option option"
  description_f :: "string option"

record UserForm =
  id_uf :: "string option"
  libraryId_uf :: "string option"
  password_uf :: "string option"
  name_uf :: "string option"
  role_uf :: "UserRole option"

text \<open>The argument of \<open>notify(msg, type)\<close>.\<close>

datatype NoticeType = success | error | info

type_synonym notification = "string \<times> NoticeType"

section \<open>JavaScript helpers\<close>

text \<open>Truthiness of a string-valued property: present and not the empty string.\<close>

fun truthy :: "string option \<Rightarrow> bool" where
  "truthy None = False"
| "truthy (Some s) = (s \<noteq> [])"

text \<open>\<open>a || b\<close> on a string-valued property and a string default.\<close>

fun orDefault :: "string option \<Rightarrow> string \<Rightarrow> string" where
  "orDefault None d = d"
| "orDefault (Some s) d = (if s = [] then d else s)"

text \<open>One property of an object spread \<open>{...b, ...form}\<close>: the form's key wins when present.\<close>

fun spreadKey :: "'a \<Rightarrow> 'a option \<Rightarrow> 'a" where
  "spreadKey v None = v"
| "spreadKey v (Some w) = w"

text \<open>\<open>String.prototype.includes\<close>: the argument occurs as a contiguous run of the receiver.\<close>

primrec includes_js :: "string \<Rightarrow> string \<Rightarrow> bool" where
  "includes_js [] q = (q = [])"
| "includes_js (c # cs) q = (prefix q (c # cs) \<or> includes_js cs q)"

text \<open>Decimal rendering of a number inside a template string, as in \<open>`b${Date.now()}`\<close>.\<close>

fun showNat :: "nat \<Rightarrow> string" where
  "showNat n = (if n < 10 then [''0123456789'' ! n]
                else showNat (n div 10) @ [''0123456789'' ! (n mod 10)])"

declare showNat.simps [simp del]

definition showInt :: "int \<Rightarrow> string" where
  "showInt i = (if i < 0 then CHR ''-'' # showNat (nat (- i)) else showNat (nat i))"

text \<open>
  \<open>d.setDate(d.getDate() + n)\<close> moves a date by \<open>n\<close> days of the host's local calendar.
  It is a function of the host's time zone, so the definitions below take it as the parameter
  \<open>plusDays\<close>. In a zone with a fixed offset to UTC a calendar day is always 24 hours, which is
  \<open>fixedZone\<close>.
\<close>

definition msPerDay :: int where
  "msPerDay = 1000 * 60 * 60 * 24"

definition fixedZone :: "timestamp \<Rightarrow> int \<Rightarrow> timestamp" where
  "fixedZone t n = t + n * msPerDay"

text \<open>
  A host on New York time during 2024: five hours behind UTC, four between 10 March 07:00 UTC
  and 3 November 06:00 UTC. \<open>setDate\<close> adds the days to the local time value and reads the
  result back as local time, with the offset in force at that local time.
\<close>

definition newYorkOffset :: "timestamp \<Rightarrow> int" where
  "newYorkOffset t =
     (if 1710054000000 \<le> t \<and> t < 1730613600000 then - 4 * 3600000 else - 5 * 3600000)"

definition newYorkLocalOffset :: "int \<Rightarrow> int" where
  "newYorkLocalOffset l =
     (if 1710054000000 - 4 * 3600000 \<le> l \<and> l < 1730613600000 - 4 * 3600000
      then - 4 * 3600000 else - 5 * 3600000)"

definition newYork2024 :: "timestamp \<Rightarrow> int \<Rightarrow> timestamp" where
  "newYork2024 t n =
     (let local = t + newYorkOffset t + n * msPerDay
      in local - newYorkLocalOffset local)"

text \<open>Sample instances of \<open>String.prototype.toLowerCase\<close> and \<open>trim\<close> on ASCII text; the
  handlers take the host's functions as parameters.\<close>

definition asciiLower :: "string \<Rightarrow> string" where
  "asciiLower s =
     map (\<lambda>c. case map_of (zip ''ABCDEFGHIJKLMNOPQRSTUVWXYZ'' ''abcdefghijklmnopqrstuvwxyz'') c of
                None \<Rightarrow> c | Some l \<Rightarrow> l) s"

definition isSpace :: "char \<Rightarrow> bool" where
  "isSpace c = (c \<in> set [CHR '' '', CHR 0x09, CHR 0x0A, CHR 0x0B, CHR 0x0C, CHR 0x0D])"

definition asciiTrim :: "string \<Rightarrow> string" where
  "asciiTrim s = rev (dropWhile isSpace (rev (dropWhile isSpace s)))"

section \<open>The persistent store (services/db.ts)\<close>

record LocalStorage =
  vaymn_users :: "User list option"
  vaymn_books :: "Book list option"
  vaymn_session :: "User option"

definition emptyStorage :: LocalStorage where
  "emptyStorage = \<lparr>vaymn_users = None, vaymn_books = None, vaymn_session = None\<rparr>"

definition getPastDate :: "(timestamp \<Rightarrow> int \<Rightarrow> timestamp) \<Rightarrow> timestamp \<Rightarrow> int \<Rightarrow> timestamp" where
  "getPastDate plusDays now days = plusDays now (- days)"

definition initialUsers :: "User list" where
  "initialUsers =
    [\<lparr>id_u = ''admin1'', libraryId = ''admin'', password = Some ''123'',
      name_u = ''Head Librarian'', role = ADMIN\<rparr>,
     \<lparr>id_u = ''user1'', libraryId = ''user'', password = Some ''123'',
      name_u = ''John Doe'', role = USER\<rparr>]"

definition initialBooks :: "(timestamp \<Rightarrow> int \<Rightarrow> timestamp) \<Rightarrow> timestamp \<Rightarrow> Book list" where
  "initialBooks plusDays now =
    [\<lparr>id_b = ''b1'', title = ''The Great Gatsby'', author = ''F. Scott Fitzgerald'',
      genre = ''Classic'', coverUrl = Some ''https://picsum.photos/300/450?random=1'',
      standNumber = ''A1'', isIssued = False, issuedToUserId = None, issuedDate = None,
      description = Some ''A novel set in the Jazz Age.''\<rparr>,
     \<lparr>id_b = ''b2'', title = ''1984'', author = ''George Orwell'',
      genre = ''Dystopian'', coverUrl = Some ''https://picsum.photos/300/450?random=2'',
      standNumber = ''B3'', isIssued = False, issuedToUserId = None, issuedDate = None,
      description = Some ''A story about totalitarianism.''\<rparr>,
     \<lparr>id_b = ''b3'', title = ''Clean Code'', author = ''Robert C. Martin'',
      genre = ''Technology'', coverUrl = Some ''https://picsum.photos/300/450?random=3'',
      standNumber = ''T5'', isIssued = True, issuedToUserId = Some ''user1'',
      issuedDate = Some (getPastDate plusDays now 14),
      description = Some ''A handbook of agile software craftsmanship.''\<rparr>]"

definition seedData :: "(timestamp \<Rightarrow> int \<Rightarrow> timestamp) \<Rightarrow> timestamp \<Rightarrow> LocalStorage \<Rightarrow> LocalStorage" where
  "seedData plusDays now ls =
    (let ls1 = (if vaymn_users ls = None then ls\<lparr>vaymn_users := Some initialUsers\<rparr> else ls)
     in if vaymn_books ls1 = None then ls1\<lparr>vaymn_books := Some (initialBooks plusDays now)\<rparr>
        else ls1)"

definition getUsers :: "LocalStorage \<Rightarrow> User list" where
  "getUsers ls = (case vaymn_users ls of None \<Rightarrow> [] | Some us \<Rightarrow> us)"

definition saveUsers :: "User list \<Rightarrow> LocalStorage \<Rightarrow> LocalStorage" where
  "saveUsers us ls = ls\<lparr>vaymn_users := Some us\<rparr>"

definition getBooks :: "LocalStorage \<Rightarrow> Book list" where
  "getBooks ls = (case vaymn_books ls of None \<Rightarrow> [] | Some bs \<Rightarrow> bs)"

definition saveBooks :: "Book list \<Rightarrow> LocalStorage \<Rightarrow> LocalStorage" where
  "saveBooks bs ls = ls\<lparr>vaymn_books := Some bs\<rparr>"

definition getSession :: "LocalStorage \<Rightarrow> User option" where
  "getSession ls = vaymn_session ls"

definition setSession :: "User \<Rightarrow> LocalStorage \<Rightarrow> LocalStorage" where
  "setSession u ls = ls\<lparr>vaymn_session := Some u\<rparr>"

definition clearSession :: "LocalStorage \<Rightarrow> LocalStorage" where
  "clearSession ls = ls\<lparr>vaymn_session := None\<rparr>"

definition findUser :: "LocalStorage \<Rightarrow> string \<Rightarrow> User option" where
  "findUser ls lid = find (\<lambda>u. libraryId u = lid) (getUsers ls)"

section \<open>Login and signup (App.tsx)\<close>

text \<open>The state of the \<open>App\<close> component together with the store it reads and writes.
  \<open>notify\<close> records the message shown; its timed dismissal is not modelled.\<close>

record App =
  storage :: LocalStorage
  state :: AppState
  libId :: string
  password_s :: string
  name_s :: string
  notification :: "notification option"

definition notify :: "notification \<Rightarrow> App \<Rightarrow> App" where
  "notify n a = a\<lparr>notification := Some n\<rparr>"

definition resetForm :: "App \<Rightarrow> App" where
  "resetForm a = a\<lparr>libId := [], password_s := [], name_s := []\<rparr>"

definition handleLogin :: "UserRole \<Rightarrow> App \<Rightarrow> App" where
  "handleLogin r a =
    (case findUser (storage a) (libId a) of
       Some user \<Rightarrow>
         if password user = Some (password_s a) then
           (if role user = r then
              notify (''Welcome back, '' @ name_u user, success)
                (resetForm (a\<lparr>storage := setSession user (storage a),
                               state := \<lparr>view = DASHBOARD, currentUser = Some user\<rparr>\<rparr>))
            else
              notify (''This account is not authorized for ''
                        @ (if r = ADMIN then ''Admin'' else ''Student'') @ '' access.'', error) a)
         else notify (''Invalid Library ID or Password.'', error) a
     | None \<Rightarrow> notify (''Invalid Library ID or Password.'', error) a)"

text \<open>\<open>trim\<close> is the host's \<open>String.prototype.trim\<close>, \<open>now\<close> the value of \<open>Date.now()\<close>.\<close>

definition handleSignup :: "(string \<Rightarrow> string) \<Rightarrow> timestamp \<Rightarrow> App \<Rightarrow> App" where
  "handleSignup trim now a =
    (let r = (if view (state a) = SIGNUP_ADMIN then ADMIN else USER);
         roleName = (if r = ADMIN then ''Librarian'' else ''Student'')
     in if trim (name_s a) = [] \<or> trim (libId a) = [] \<or> trim (password_s a) = [] then
          notify (''Please fill in all fields.'', error) a
        else
          let users = getUsers (storage a)
          in if find (\<lambda>u. libraryId u = libId a) users \<noteq> None then
               notify (''Library ID already exists. Please choose another.'', error) a
             else
               let newUser = \<lparr>id_u = ''u'' @ showInt now, libraryId = libId a,
                                password = Some (password_s a), name_u = name_s a, role = r\<rparr>
               in notify (''Welcome, '' @ name_s a @ ''! Your '' @ roleName
                            @ '' account is ready.'', success)
                    (resetForm (a\<lparr>storage := setSession newUser
                                               (saveUsers (users @ [newUser]) (storage a)),
                                   state := \<lparr>view = DASHBOARD, currentUser = Some newUser\<rparr>\<rparr>)))"

definition handleLogout :: "App \<Rightarrow> App" where
  "handleLogout a =
     notify (''Logged out successfully.'', info)
       (a\<lparr>storage := clearSession (storage a), state := \<lparr>view = HOME, currentUser = None\<rparr>\<rparr>)"

section \<open>The student dashboard (UserDashboard)\<close>

text \<open>The state of the component together with the store it reads and writes. \<open>notify\<close> is
  a prop bound to \<open>App\<close>'s; the dashboards keep the message it was last called with. A
  write to the store is taken to succeed (the source catches a failing one in \<open>handleSignup\<close>
  only).\<close>

record UserDashboard =
  storage_ud :: LocalStorage
  books_ud :: "Book list"
  searchQuery :: string
  selectedBook :: "Book option"
  notification_ud :: "notification option"

text \<open>Mounting runs \<open>loadBooks\<close>.\<close>

definition mountUserDashboard :: "LocalStorage \<Rightarrow> UserDashboard" where
  "mountUserDashboard ls =
     \<lparr>storage_ud = ls, books_ud = getBooks ls, searchQuery = [], selectedBook = None,
      notification_ud = None\<rparr>"

text \<open>\<open>now\<close> is the value of \<open>new Date()\<close> read while the list is mapped.\<close>

definition handleIssueBook :: "User \<Rightarrow> timestamp \<Rightarrow> Book \<Rightarrow> UserDashboard \<Rightarrow> UserDashboard" where
  "handleIssueBook currentUser' now book s =
    (if \<not> isIssued book then
       let updatedBooks =
             map (\<lambda>b. if id_b b = id_b book
                       then b\<lparr>isIssued := True, issuedToUserId := Some (id_u currentUser'),
                              issuedDate := Some now\<rparr>
                       else b) (books_ud s)
       in s\<lparr>storage_ud := saveBooks updatedBooks (storage_ud s), books_ud := updatedBooks,
            selectedBook := None,
            notification_ud := Some (''Book issued successfully! Please collect it.'', success)\<rparr>
     else s)"

definition handleReturnClick :: "UserDashboard \<Rightarrow> UserDashboard" where
  "handleReturnClick s =
     s\<lparr>notification_ud :=
          Some (''Please submit the book physically to the librarian at the counter.'', info)\<rparr>"

text \<open>\<open>toLowerCase\<close> is the host's \<open>String.prototype.toLowerCase\<close>.\<close>

definition filteredBooks :: "(string \<Rightarrow> string) \<Rightarrow> Book list \<Rightarrow> string \<Rightarrow> Book list" where
  "filteredBooks toLowerCase books searchQuery' =
     filter (\<lambda>b. includes_js (toLowerCase (title b)) (toLowerCase searchQuery')
                \<or> includes_js (toLowerCase (author b)) (toLowerCase searchQuery')
                \<or> includes_js (toLowerCase (genre b)) (toLowerCase searchQuery')) books"

definition myBooks :: "User \<Rightarrow> Book list \<Rightarrow> Book list" where
  "myBooks currentUser' books = filter (\<lambda>b. issuedToUserId b = Some (id_u currentUser')) books"

text \<open>
  JavaScript numbers are IEEE doubles. \<open>toDouble\<close> is the double nearest to a real, ties to
  the even significand: the spacing of the doubles around \<open>x\<close> is \<open>2\<close> to the power
  \<open>binade x - 52\<close> (with the least exponent \<open>-1022\<close>). Overflow to infinity is left out: the
  numbers of the fine are far below the largest double. \<open>roundInt\<close> is the same rounding of
  a whole number, whose nearest double is a whole number again.
\<close>

definition roundToEven :: "real \<Rightarrow> int" where
  "roundToEven y =
    (let f = \<lfloor>y\<rfloor>
     in if y - of_int f < 1 / 2 then f
        else if 1 / 2 < y - of_int f then f + 1
        else if even f then f else f + 1)"

definition pow2 :: "int \<Rightarrow> real" where
  "pow2 e = (if 0 \<le> e then 2 ^ nat e else 1 / 2 ^ nat (- e))"

definition binade :: "real \<Rightarrow> int" where
  "binade x = \<lfloor>log 2 \<bar>x\<bar>\<rfloor>"

definition toDouble :: "real \<Rightarrow> real" where
  "toDouble x =
    (if x = 0 then 0
     else let ulp = pow2 (max (binade x) (- 1022) - 52)
          in of_int (roundToEven (x / ulp)) * ulp)"

definition roundInt :: "int \<Rightarrow> int" where
  "roundInt n = \<lfloor>toDouble (of_int n)\<rfloor>"

text \<open>
  The time value of a \<open>Date\<close> is a whole number of milliseconds of absolute value at most
  \<open>8.64e15\<close>; \<open>setDate\<close> leaves an invalid date (\<open>None\<close>, the time value \<open>NaN\<close>) when it
  steps out of that range, and every comparison with an invalid date is false.
\<close>

definition maxTime :: int where
  "maxTime = 8640000000000000"

definition timeClip :: "int \<Rightarrow> timestamp option" where
  "timeClip t = (if \<bar>t\<bar> \<le> maxTime then Some t else None)"

text \<open>
  The fine shown on a card of \<open>myBooks\<close>: \<open>dueDate\<close> is the date \<open>setDate\<close> leaves in the
  copy of the issue date, \<open>diffDays\<close> the constant of that name, computed from the two time
  values when the due date is valid.
\<close>

definition dueDate :: "(timestamp \<Rightarrow> int \<Rightarrow> timestamp) \<Rightarrow> timestamp \<Rightarrow> timestamp option" where
  "dueDate plusDays issueDate = timeClip (plusDays issueDate 7)"

definition diffDays :: "timestamp \<Rightarrow> timestamp \<Rightarrow> int" where
  "diffDays today due =
    (let diffTime = \<bar>roundInt (today - due)\<bar>
     in \<lceil>toDouble (real_of_int diffTime / real_of_int (1000 * 60 * 60 * 24))\<rceil>)"

definition fine :: "(timestamp \<Rightarrow> int \<Rightarrow> timestamp) \<Rightarrow> timestamp \<Rightarrow> timestamp \<Rightarrow> int" where
  "fine plusDays issueDate today =
    (case dueDate plusDays issueDate of
       None \<Rightarrow> 0
     | Some due \<Rightarrow>
         let isOverdue = (today > due)
         in if isOverdue then roundInt (diffDays today due * 5) else 0)"

text \<open>\<open>new Date(book.issuedDate!)\<close>: a \<open>null\<close> date reads as the epoch.\<close>

definition bookFine :: "(timestamp \<Rightarrow> int \<Rightarrow> timestamp) \<Rightarrow> timestamp \<Rightarrow> Book \<Rightarrow> int" where
  "bookFine plusDays today book =
     fine plusDays (case issuedDate book of None \<Rightarrow> 0 | Some t \<Rightarrow> t) today"

section \<open>The librarian dashboard (AdminDashboard)\<close>

text \<open>The outcome of an awaited promise.\<close>

datatype 'a settled = Resolved 'a | Rejected

text \<open>What \<open>generateBookDetails\<close> resolves to when it has data, after its response schema:
  \<open>author\<close>, \<open>genre\<close> and \<open>description\<close> are required, \<open>coverUrl\<close> is not.\<close>

record BookDetails =
  author_ai :: string
  genre_ai :: string
  description_ai :: string
  coverUrl_ai :: "string option"

record AdminDashboard =
  storage_ad :: LocalStorage
  books_ad :: "Book list"
  users_ad :: "User list"
  bookForm :: BookForm
  isEditMode :: bool
  isBookModalOpen :: bool
  userForm :: UserForm
  isUserEditMode :: bool
  isUserModalOpen :: bool
  notification_ad :: "notification option"

definition notify_ad :: "notification \<Rightarrow> AdminDashboard \<Rightarrow> AdminDashboard" where
  "notify_ad n s = s\<lparr>notification_ad := Some n\<rparr>"

definition loadData :: "AdminDashboard \<Rightarrow> AdminDashboard" where
  "loadData s = s\<lparr>books_ad := getBooks (storage_ad s), users_ad := getUsers (storage_ad s)\<rparr>"

text \<open>The form objects the component starts with and resets to.\<close>

definition blankBookForm :: BookForm where
  "blankBookForm =
     \<lparr>id_f = None, title_f = Some [], author_f = Some [], genre_f = Some [],
      coverUrl_f = Some (Some []), standNumber_f = Some [], isIssued_f = None,
      issuedToUserId_f = None, issuedDate_f = None, description_f = Some []\<rparr>"

definition blankUserForm :: "UserRole \<Rightarrow> UserForm" where
  "blankUserForm r =
     \<lparr>id_uf = None, libraryId_uf = Some [], password_uf = Some [], name_uf = Some [],
      role_uf = Some r\<rparr>"

definition mountAdminDashboard :: "LocalStorage \<Rightarrow> AdminDashboard" where
  "mountAdminDashboard ls =
     \<lparr>storage_ad = ls, books_ad = getBooks ls, users_ad = getUsers ls,
      bookForm = blankBookForm, isEditMode = False, isBookModalOpen = False,
      userForm = blankUserForm USER, isUserEditMode = False, isUserModalOpen = False,
      notification_ad = None\<rparr>"

text \<open>A stored book, or a stored user, seen as a form object (\<open>setBookForm(book)\<close>): the keys
  it has are those the JSON text of the store has.\<close>

definition formOfBook :: "Book \<Rightarrow> BookForm" where
  "formOfBook b =
     \<lparr>id_f = Some (id_b b), title_f = Some (title b), author_f = Some (author b),
      genre_f = Some (genre b), coverUrl_f = map_option Some (coverUrl b),
      standNumber_f = Some (standNumber b), isIssued_f = Some (isIssued b),
      issuedToUserId_f = Some (issuedToUserId b), issuedDate_f = Some (issuedDate b),
      description_f = description b\<rparr>"

definition formOfUser :: "User \<Rightarrow> UserForm" where
  "formOfUser u =
     \<lparr>id_uf = Some (id_u u), libraryId_uf = Some (libraryId u), password_uf = password u,
      name_uf = Some (name_u u), role_uf = Some (role u)\<rparr>"

text \<open>The object spreads \<open>{ ...b, ...bookForm }\<close> and \<open>{ ...u, ...userForm }\<close>.\<close>

definition spreadBook :: "Book \<Rightarrow> BookForm \<Rightarrow> Book" where
  "spreadBook b f =
     \<lparr>id_b = spreadKey (id_b b) (id_f f), title = spreadKey (title b) (title_f f),
      author = spreadKey (author b) (author_f f), genre = spreadKey (genre b) (genre_f f),
      coverUrl = spreadKey (coverUrl b) (coverUrl_f f),
      standNumber = spreadKey (standNumber b) (standNumber_f f),
      isIssued = spreadKey (isIssued b) (isIssued_f f),
      issuedToUserId = spreadKey (issuedToUserId b) (issuedToUserId_f f),
      issuedDate = spreadKey (issuedDate b) (issuedDate_f f),
      description = (case description_f f of None \<Rightarrow> description b | Some d \<Rightarrow> Some d)\<rparr>"

definition spreadUser :: "User \<Rightarrow> UserForm \<Rightarrow> User" where
  "spreadUser u f =
     \<lparr>id_u = spreadKey (id_u u) (id_uf f), libraryId = spreadKey (libraryId u) (libraryId_uf f),
      password = (case password_uf f of None \<Rightarrow> password u | Some p \<Rightarrow> Some p),
      name_u = spreadKey (name_u u) (name_uf f), role = spreadKey (role u) (role_uf f)\<rparr>"

subsection \<open>Book functions\<close>

text \<open>The argument is \<open>None\<close> when no file was chosen, else the outcome of \<open>resizeImage\<close>.\<close>

definition handleImageUpload :: "string settled option \<Rightarrow> AdminDashboard \<Rightarrow> AdminDashboard" where
  "handleImageUpload file s =
    (case file of
       None \<Rightarrow> s
     | Some (Resolved base64) \<Rightarrow>
         notify_ad (''Image uploaded successfully!'', success)
           (s\<lparr>bookForm := (bookForm s)\<lparr>coverUrl_f := Some (Some base64)\<rparr>\<rparr>)
     | Some Rejected \<Rightarrow>
         notify_ad (''Failed to process image. Please try another.'', error) s)"

definition handleDeleteBook :: "string \<Rightarrow> AdminDashboard \<Rightarrow> AdminDashboard" where
  "handleDeleteBook bid s =
    (let updatedBooks = filter (\<lambda>b. id_b b \<noteq> bid) (books_ad s)
     in notify_ad (''Book deleted successfully.'', info)
          (loadData (s\<lparr>storage_ad := saveBooks updatedBooks (storage_ad s)\<rparr>)))"

definition handleEditBook :: "Book \<Rightarrow> AdminDashboard \<Rightarrow> AdminDashboard" where
  "handleEditBook book s =
     s\<lparr>bookForm := formOfBook book, isEditMode := True, isBookModalOpen := True\<rparr>"

definition handleReturnBook :: "string \<Rightarrow> AdminDashboard \<Rightarrow> AdminDashboard" where
  "handleReturnBook bookId s =
    (let updatedBooks =
           map (\<lambda>b. if id_b b = bookId
                     then b\<lparr>isIssued := False, issuedToUserId := None, issuedDate := None\<rparr>
                     else b) (books_ad s)
     in notify_ad (''Book marked as returned.'', success)
          (loadData (s\<lparr>storage_ad := saveBooks updatedBooks (storage_ad s)\<rparr>)))"

definition openAddBookModal :: "AdminDashboard \<Rightarrow> AdminDashboard" where
  "openAddBookModal s =
     s\<lparr>bookForm := blankBookForm, isEditMode := False, isBookModalOpen := True\<rparr>"

text \<open>The \<open>onChange\<close> handlers of the five text inputs of the book form.\<close>

datatype BookInput = Title | Author | Genre | StandNumber | Description

fun onChangeBook :: "BookInput \<Rightarrow> string \<Rightarrow> AdminDashboard \<Rightarrow> AdminDashboard" where
  "onChangeBook Title v s = s\<lparr>bookForm := (bookForm s)\<lparr>title_f := Some v\<rparr>\<rparr>"
| "onChangeBook Author v s = s\<lparr>bookForm := (bookForm s)\<lparr>author_f := Some v\<rparr>\<rparr>"
| "onChangeBook Genre v s = s\<lparr>bookForm := (bookForm s)\<lparr>genre_f := Some v\<rparr>\<rparr>"
| "onChangeBook StandNumber v s = s\<lparr>bookForm := (bookForm s)\<lparr>standNumber_f := Some v\<rparr>\<rparr>"
| "onChangeBook Description v s = s\<lparr>bookForm := (bookForm s)\<lparr>description_f := Some v\<rparr>\<rparr>"

text \<open>
  The merge \<open>setBookForm(prev => ...)\<close> of \<open>handleSmartFill\<close>, and the handler itself. Its
  argument is the outcome of \<open>await generateBookDetails(bookForm.title)\<close>: \<open>Resolved None\<close> is
  \<open>null\<close>. The form is taken not to change while the call is awaited.
\<close>

definition smartFillMerge :: "BookDetails \<Rightarrow> BookForm \<Rightarrow> BookForm" where
  "smartFillMerge data prev =
     prev\<lparr>author_f := Some (author_ai data),
          genre_f := Some (genre_ai data),
          description_f := Some (description_ai data),
          coverUrl_f := (case coverUrl_f prev of
                           Some (Some c) \<Rightarrow> if c \<noteq> [] then Some (Some c)
                                            else Some (coverUrl_ai data)
                         | _ \<Rightarrow> Some (coverUrl_ai data))\<rparr>"

definition handleSmartFill :: "BookDetails option settled \<Rightarrow> AdminDashboard \<Rightarrow> AdminDashboard" where
  "handleSmartFill outcome s =
    (if \<not> truthy (title_f (bookForm s)) then
       notify_ad (''Please enter a book title first.'', error) s
     else case outcome of
            Resolved (Some data) \<Rightarrow>
              notify_ad (''Book details auto-filled!'', success)
                (s\<lparr>bookForm := smartFillMerge data (bookForm s)\<rparr>)
          | Resolved None \<Rightarrow>
              notify_ad (''Could not fetch details. Please fill manually.'', info) s
          | Rejected \<Rightarrow>
              notify_ad (''AI Service unavailable. Please check configuration.'', error) s)"

definition handleBookSubmit :: "timestamp \<Rightarrow> AdminDashboard \<Rightarrow> AdminDashboard" where
  "handleBookSubmit now s =
    (case (title_f (bookForm s), standNumber_f (bookForm s)) of
       (Some t, Some sn) \<Rightarrow>
         if t = [] \<or> sn = [] then
           notify_ad (''Title and Stand Number are required.'', error) s
         else
           let newBooks =
                 (if isEditMode s \<and> truthy (id_f (bookForm s)) then
                    map (\<lambda>b. if Some (id_b b) = id_f (bookForm s)
                              then spreadBook b (bookForm s) else b) (books_ad s)
                  else
                    books_ad s @
                      [\<lparr>id_b = ''b'' @ showInt now, title = t,
                        author = orDefault (author_f (bookForm s)) ''Unknown'',
                        genre = orDefault (genre_f (bookForm s)) ''General'',
                        coverUrl = Some (orDefault (Option.bind (coverUrl_f (bookForm s)) (\<lambda>c. c))
                                     ''https://via.placeholder.com/300x450?text=No+Cover''),
                        standNumber = sn, isIssued = False, issuedToUserId = None,
                        issuedDate = None,
                        description = Some (orDefault (description_f (bookForm s)) [])\<rparr>])
           in notify_ad (if isEditMode s then ''Book updated successfully!''
                         else ''Book added to catalog!'', success)
                ((loadData (s\<lparr>storage_ad := saveBooks newBooks (storage_ad s)\<rparr>))
                   \<lparr>isBookModalOpen := False\<rparr>)
     | _ \<Rightarrow> notify_ad (''Title and Stand Number are required.'', error) s)"

subsection \<open>User functions\<close>

definition openUserModal :: "UserRole \<Rightarrow> User option \<Rightarrow> AdminDashboard \<Rightarrow> AdminDashboard" where
  "openUserModal r userToEdit s =
    (case userToEdit of
       Some u \<Rightarrow> s\<lparr>userForm := formOfUser u, isUserEditMode := True, isUserModalOpen := True\<rparr>
     | None \<Rightarrow> s\<lparr>userForm := blankUserForm r, isUserEditMode := False,
                  isUserModalOpen := True\<rparr>)"

definition handleDeleteUser :: "string \<Rightarrow> AdminDashboard \<Rightarrow> AdminDashboard" where
  "handleDeleteUser userId s =
    (let updatedUsers = filter (\<lambda>u. id_u u \<noteq> userId) (users_ad s)
     in notify_ad (''User account removed.'', info)
          (loadData (s\<lparr>storage_ad := saveUsers updatedUsers (storage_ad s)\<rparr>)))"

definition handleUserSubmit :: "timestamp \<Rightarrow> AdminDashboard \<Rightarrow> AdminDashboard" where
  "handleUserSubmit now s =
    (case (libraryId_uf (userForm s), password_uf (userForm s), name_uf (userForm s)) of
       (Some l, Some p, Some n) \<Rightarrow>
         if l = [] \<or> p = [] \<or> n = [] then
           notify_ad (''All fields are required.'', error) s
         else if \<not> isUserEditMode s \<and> list_ex (\<lambda>u. libraryId u = l) (users_ad s) then
           notify_ad (''This Library ID is already taken.'', error) s
         else
           let updatedUsers =
                 (if isUserEditMode s \<and> truthy (id_uf (userForm s)) then
                    map (\<lambda>u. if Some (id_u u) = id_uf (userForm s)
                              then spreadUser u (userForm s) else u) (users_ad s)
                  else
                    users_ad s @
                      [\<lparr>id_u = ''u'' @ showInt now, libraryId = l, password = Some p,
                        name_u = n,
                        role = (case role_uf (userForm s) of None \<Rightarrow> USER | Some r \<Rightarrow> r)\<rparr>])
           in notify_ad (if isUserEditMode s then ''Profile updated.''
                         else ''Account created successfully.'', success)
                ((loadData (s\<lparr>storage_ad := saveUsers updatedUsers (storage_ad s)\<rparr>))
                   \<lparr>isUserModalOpen := False\<rparr>)
     | _ \<Rightarrow> notify_ad (''All fields are required.'', error) s)"

text \<open>The three text inputs of the user form.\<close>

datatype UserInput = Name | LibraryId | Password

fun onChangeUser :: "UserInput \<Rightarrow> string \<Rightarrow> AdminDashboard \<Rightarrow> AdminDashboard" where
  "onChangeUser Name v s = s\<lparr>userForm := (userForm s)\<lparr>name_uf := Some v\<rparr>\<rparr>"
| "onChangeUser LibraryId v s = s\<lparr>userForm := (userForm s)\<lparr>libraryId_uf := Some v\<rparr>\<rparr>"
| "onChangeUser Password v s = s\<lparr>userForm := (userForm s)\<lparr>password_uf := Some v\<rparr>\<rparr>"

subsection \<open>Derived values of the render\<close>

text \<open>The borrower shown on a book card: \<open>issuedTo?.name || 'Unknown User'\<close>.\<close>

definition issuedTo :: "User list \<Rightarrow> Book \<Rightarrow> User option" where
  "issuedTo users book =
    (if truthy (issuedToUserId book)
     then find (\<lambda>u. Some (id_u u) = issuedToUserId book) users else None)"

definition issuedToName :: "User list \<Rightarrow> Book \<Rightarrow> string" where
  "issuedToName users book =
    (case issuedTo users book of
       None \<Rightarrow> ''Unknown User''
     | Some u \<Rightarrow> if name_u u = [] then ''Unknown User'' else name_u u)"

text \<open>The total fine of a row of the students table.\<close>

definition totalFine :: "(timestamp \<Rightarrow> int \<Rightarrow> timestamp) \<Rightarrow> timestamp \<Rightarrow> Book list \<Rightarrow> User \<Rightarrow> int" where
  "totalFine plusDays today books user =
    (let issuedBooks = filter (\<lambda>b. issuedToUserId b = Some (id_u user)) books
     in foldl (\<lambda>total b.
          case issuedDate b of
            Some issueDate \<Rightarrow>
              if isIssued b then
                (case dueDate plusDays issueDate of
                   Some due \<Rightarrow>
                     if today > due then roundInt (total + roundInt (diffDays today due * 5))
                     else total
                 | None \<Rightarrow> total)
              else total
          | None \<Rightarrow> total) 0 issuedBooks)"

section \<open>Sessions of use\<close>

text \<open>
  The store as the application can leave it, and the two dashboards as they can be while
  mounted on it. A browser starts with an empty store; \<open>App\<close> seeds it on load; logging in
  mounts one dashboard on the store, which then runs its handlers in any order, and logging out
  or reloading leaves the store as the dashboard wrote it. A book card hands \<open>handleEditBook\<close> a
  book of the list on display. \<open>smartFillLate\<close> is the merge of a smart fill that resolves after
  the form has changed.
\<close>

inductive store :: "LocalStorage \<Rightarrow> bool"
  and student :: "UserDashboard \<Rightarrow> bool"
  and librarian :: "AdminDashboard \<Rightarrow> bool"
where
  fresh: "store emptyStorage"
| init: "store ls \<Longrightarrow> store (seedData plusDays now ls)"
| login: "store (storage a) \<Longrightarrow> store (storage (handleLogin r a))"
| signup: "store (storage a) \<Longrightarrow> store (storage (handleSignup trim now a))"
| logout: "store (storage a) \<Longrightarrow> store (storage (handleLogout a))"
| mountStudent: "store ls \<Longrightarrow> student (mountUserDashboard ls)"
| leaveStudent: "student u \<Longrightarrow> store (storage_ud u)"
| issue: "student u \<Longrightarrow> student (handleIssueBook currentUser' now book u)"
| returnClick: "student u \<Longrightarrow> student (handleReturnClick u)"
| search: "student u \<Longrightarrow> student (u\<lparr>searchQuery := q\<rparr>)"
| select: "student u \<Longrightarrow> student (u\<lparr>selectedBook := sel\<rparr>)"
| mountLibrarian: "store ls \<Longrightarrow> librarian (mountAdminDashboard ls)"
| leaveLibrarian: "librarian s \<Longrightarrow> store (storage_ad s)"
| imageUpload: "librarian s \<Longrightarrow> librarian (handleImageUpload file s)"
| deleteBook: "librarian s \<Longrightarrow> librarian (handleDeleteBook bid s)"
| editBook: "librarian s \<Longrightarrow> book \<in> set (books_ad s) \<Longrightarrow> librarian (handleEditBook book s)"
| returnBook: "librarian s \<Longrightarrow> librarian (handleReturnBook bid s)"
| addBook: "librarian s \<Longrightarrow> librarian (openAddBookModal s)"
| changeBook: "librarian s \<Longrightarrow> librarian (onChangeBook inp v s)"
| smartFill: "librarian s \<Longrightarrow> librarian (handleSmartFill outcome s)"
| smartFillLate: "librarian s \<Longrightarrow> librarian (s\<lparr>bookForm := smartFillMerge data (bookForm s)\<rparr>)"
| bookSubmit: "librarian s \<Longrightarrow> librarian (handleBookSubmit now s)"
| closeBookModal: "librarian s \<Longrightarrow> librarian (s\<lparr>isBookModalOpen := False\<rparr>)"
| userModal: "librarian s \<Longrightarrow> librarian (openUserModal r userToEdit s)"
| deleteUser: "librarian s \<Longrightarrow> librarian (handleDeleteUser userId s)"
| userSubmit: "librarian s \<Longrightarrow> librarian (handleUserSubmit now s)"
| changeUser: "librarian s \<Longrightarrow> librarian (onChangeUser uinp v s)"
| closeUserModal: "librarian s \<Longrightarrow> librarian (s\<lparr>isUserModalOpen := False\<rparr>)"

text \<open>What the librarian can do to an open book form before saving it.\<close>

datatype FormAction =
  Change BookInput string
  | Upload "string settled option"
  | SmartFill "BookDetails option settled"

fun formAction :: "AdminDashboard \<Rightarrow> FormAction \<Rightarrow> AdminDashboard" where
  "formAction s (Change inp v) = onChangeBook inp v s"
| "formAction s (Upload file) = handleImageUpload file s"
| "formAction s (SmartFill outcome) = handleSmartFill outcome s"

section \<open>The properties, as the specification words them\<close>

text \<open>\<open>isIssued == true\<close> iff \<open>issuedToUserId != null\<close> iff \<open>issuedDate != null\<close>.\<close>

definition lendingInvariant :: "Book \<Rightarrow> bool" where
  "lendingInvariant b =
     ((isIssued b = (issuedToUserId b \<noteq> None)) \<and>
      ((issuedToUserId b \<noteq> None) = (issuedDate b \<noteq> None)))"

text \<open>The lending keys of a form: all missing, or all present and in step.\<close>

definition formLending :: "BookForm \<Rightarrow> bool" where
  "formLending f =
    (case (isIssued_f f, issuedToUserId_f f, issuedDate_f f) of
       (None, None, None) \<Rightarrow> True
     | (Some i, Some u, Some d) \<Rightarrow> (i = (u \<noteq> None)) \<and> ((u \<noteq> None) = (d \<noteq> None))
     | _ \<Rightarrow> False)"

text \<open>The invariant on a store and on each dashboard mounted on it: the stored list, the list
  on display and the lending keys of the open form.\<close>

definition storeInv :: "LocalStorage \<Rightarrow> bool" where
  "storeInv ls = list_all lendingInvariant (getBooks ls)"

definition studentInv :: "UserDashboard \<Rightarrow> bool" where
  "studentInv u = (storeInv (storage_ud u) \<and> list_all lendingInvariant (books_ud u))"

definition librarianInv :: "AdminDashboard \<Rightarrow> bool" where
  "librarianInv s =
     (storeInv (storage_ad s) \<and> list_all lendingInvariant (books_ad s) \<and>
      formLending (bookForm s))"

text \<open>The lending fields of a book.\<close>

definition lending :: "Book \<Rightarrow> bool \<times> string option \<times> timestamp option" where
  "lending b = (isIssued b, issuedToUserId b, issuedDate b)"

text \<open>The fine as the specification computes it from a due date: nothing up to the due
  date, then five per day or part of a day. \<open>fineClaimed\<close> takes the due date seven days of 24
  hours after the issue date.\<close>

definition fineSpec :: "timestamp \<Rightarrow> timestamp \<Rightarrow> int" where
  "fineSpec due now =
    (if now \<le> due then 0
     else \<lceil>real_of_int (now - due) / real_of_int msPerDay\<rceil> * 5)"

definition fineClaimed :: "timestamp \<Rightarrow> timestamp \<Rightarrow> int" where
  "fineClaimed issueDate now = fineSpec (issueDate + 7 * msPerDay) now"

text \<open>A book whose loan is past a valid due date.\<close>

definition overdueBook :: "(timestamp \<Rightarrow> int \<Rightarrow> timestamp) \<Rightarrow> timestamp \<Rightarrow> Book \<Rightarrow> bool" where
  "overdueBook plusDays today b =
    (case issuedDate b of
       Some issueDate \<Rightarrow>
         (case dueDate plusDays issueDate of Some due \<Rightarrow> due < today | None \<Rightarrow> False)
     | None \<Rightarrow> False)"

text \<open>\<open>q\<close> is a substring of \<open>s\<close>.\<close>

definition substring :: "string \<Rightarrow> string \<Rightarrow> bool" where
  "substring q s = (\<exists>before after. s = before @ q @ after)"

text \<open>A book matches a query when the lowercased query is a substring of its lowercased
  title, author or genre.\<close>

definition matches :: "(string \<Rightarrow> string) \<Rightarrow> string \<Rightarrow> Book \<Rightarrow> bool" where
  "matches lower q b =
     (substring (lower q) (lower (title b)) \<or> substring (lower q) (lower (author b))
      \<or> substring (lower q) (lower (genre b)))"

section \<open>Facts about the store and the helpers\<close>

lemma getBooks_saveBooks: "getBooks (saveBooks bs ls) = bs"
  by (simp add: getBooks_def saveBooks_def)

lemma getBooks_saveUsers: "getBooks (saveUsers us ls) = getBooks ls"
  by (simp add: getBooks_def saveUsers_def)

lemma getBooks_setSession: "getBooks (setSession u ls) = getBooks ls"
  by (simp add: getBooks_def setSession_def)

lemma getBooks_clearSession: "getBooks (clearSession ls) = getBooks ls"
  by (simp add: getBooks_def clearSession_def)

lemma getUsers_saveUsers: "getUsers (saveUsers us ls) = us"
  by (simp add: getUsers_def saveUsers_def)

lemma getUsers_saveBooks: "getUsers (saveBooks bs ls) = getUsers ls"
  by (simp add: getUsers_def saveBooks_def)

lemma storage_notify: "storage (notify n a) = storage a"
  by (simp add: notify_def)

lemma storage_resetForm: "storage (resetForm a) = storage a"
  by (simp add: resetForm_def)

lemma list_all_map_if:
  "list_all P xs \<Longrightarrow> (\<And>x. x \<in> set xs \<Longrightarrow> c x \<Longrightarrow> P (f x)) \<Longrightarrow>
   list_all P (map (\<lambda>x. if c x then f x else x) xs)"
  by (induction xs) auto

section \<open>The lending invariant\<close>

subsection \<open>The store and the login screen\<close>

lemma storeInv_saveBooks: "storeInv (saveBooks bs ls) = list_all lendingInvariant bs"
  by (simp add: storeInv_def getBooks_saveBooks)

lemma storeInv_saveUsers: "storeInv (saveUsers us ls) = storeInv ls"
  by (simp add: storeInv_def getBooks_saveUsers)

lemma storeInv_setSession: "storeInv (setSession u ls) = storeInv ls"
  by (simp add: storeInv_def getBooks_setSession)

lemma storeInv_clearSession: "storeInv (clearSession ls) = storeInv ls"
  by (simp add: storeInv_def getBooks_clearSession)

lemma storeInv_empty: "storeInv emptyStorage"
  by (simp add: storeInv_def getBooks_def emptyStorage_def)

lemma initialBooks_inv: "list_all lendingInvariant (initialBooks plusDays now)"
  by (simp add: initialBooks_def lendingInvariant_def)

lemma storeInv_seedData: "storeInv ls \<Longrightarrow> storeInv (seedData plusDays now ls)"
  using initialBooks_inv [of plusDays now]
  by (auto simp: seedData_def Let_def storeInv_def getBooks_def split: option.splits)

lemma storeInv_login: "storeInv (storage a) \<Longrightarrow> storeInv (storage (handleLogin r a))"
  by (simp add: handleLogin_def storage_notify storage_resetForm storeInv_setSession
      split: option.splits)

lemma storeInv_signup: "storeInv (storage a) \<Longrightarrow> storeInv (storage (handleSignup trim now a))"
  by (simp add: handleSignup_def Let_def storage_notify storage_resetForm storeInv_setSession
      storeInv_saveUsers)

lemma storeInv_logout: "storeInv (storage a) \<Longrightarrow> storeInv (storage (handleLogout a))"
  by (simp add: handleLogout_def storage_notify storeInv_clearSession)

subsection \<open>The student dashboard\<close>

lemma studentInv_mount: "storeInv ls \<Longrightarrow> studentInv (mountUserDashboard ls)"
  by (simp add: studentInv_def mountUserDashboard_def storeInv_def)

lemma issued_inv:
  "lendingInvariant (b\<lparr>isIssued := True, issuedToUserId := Some u, issuedDate := Some t\<rparr>)"
  by (simp add: lendingInvariant_def)

lemma returned_inv:
  "lendingInvariant (b\<lparr>isIssued := False, issuedToUserId := None, issuedDate := None\<rparr>)"
  by (simp add: lendingInvariant_def)

lemma studentInv_issue: "studentInv u \<Longrightarrow> studentInv (handleIssueBook cu now book u)"
  by (simp add: studentInv_def handleIssueBook_def Let_def storeInv_saveBooks list_all_map_if
      issued_inv)

lemma studentInv_returnClick: "studentInv u \<Longrightarrow> studentInv (handleReturnClick u)"
  by (simp add: studentInv_def handleReturnClick_def)

lemma studentInv_search: "studentInv u \<Longrightarrow> studentInv (u\<lparr>searchQuery := q\<rparr>)"
  by (simp add: studentInv_def)

lemma studentInv_select: "studentInv u \<Longrightarrow> studentInv (u\<lparr>selectedBook := sel\<rparr>)"
  by (simp add: studentInv_def)

subsection \<open>The librarian dashboard\<close>

lemma formLending_blank: "formLending blankBookForm"
  by (simp add: formLending_def blankBookForm_def)

lemma formLending_cover: "formLending (f\<lparr>coverUrl_f := c\<rparr>) = formLending f"
  by (simp add: formLending_def)

lemma formLending_formOfBook: "lendingInvariant b \<Longrightarrow> formLending (formOfBook b)"
  by (simp add: formLending_def formOfBook_def lendingInvariant_def)

lemma formLending_smartFillMerge: "formLending (smartFillMerge d f) = formLending f"
  by (simp add: formLending_def smartFillMerge_def)

lemma spreadBook_inv:
  "lendingInvariant b \<Longrightarrow> formLending f \<Longrightarrow> lendingInvariant (spreadBook b f)"
  by (auto simp: lendingInvariant_def formLending_def spreadBook_def split: option.splits)

lemma librarianInv_mount: "storeInv ls \<Longrightarrow> librarianInv (mountAdminDashboard ls)"
  by (simp add: librarianInv_def mountAdminDashboard_def storeInv_def formLending_blank)

lemma librarianInv_notify: "librarianInv (notify_ad n s) = librarianInv s"
  by (simp add: librarianInv_def notify_ad_def)

lemma librarianInv_form:
  "librarianInv s \<Longrightarrow> formLending f \<Longrightarrow> librarianInv (s\<lparr>bookForm := f\<rparr>)"
  by (simp add: librarianInv_def)

lemma librarianInv_formLending: "librarianInv s \<Longrightarrow> formLending (bookForm s)"
  by (simp add: librarianInv_def)

lemma librarianInv_books: "librarianInv s \<Longrightarrow> list_all lendingInvariant (books_ad s)"
  by (simp add: librarianInv_def)

lemma librarianInv_saveBooks:
  "librarianInv s \<Longrightarrow> list_all lendingInvariant bs \<Longrightarrow>
   librarianInv (loadData (s\<lparr>storage_ad := saveBooks bs (storage_ad s)\<rparr>))"
  by (simp add: librarianInv_def loadData_def storeInv_saveBooks getBooks_saveBooks)

lemma librarianInv_saveUsers:
  "librarianInv s \<Longrightarrow> librarianInv (loadData (s\<lparr>storage_ad := saveUsers us (storage_ad s)\<rparr>))"
  by (simp add: librarianInv_def loadData_def storeInv_saveUsers getBooks_saveUsers)
     (simp add: storeInv_def)

lemma librarianInv_imageUpload:
  assumes "librarianInv s"
  shows "librarianInv (handleImageUpload upload s)"
proof (cases upload)
  case None
  with assms show ?thesis by (simp add: handleImageUpload_def)
next
  case (Some r)
  with assms show ?thesis
    by (cases r)
       (simp_all add: handleImageUpload_def librarianInv_notify librarianInv_form
          formLending_cover librarianInv_formLending)
qed

lemma librarianInv_deleteBook: "librarianInv s \<Longrightarrow> librarianInv (handleDeleteBook bid s)"
  unfolding handleDeleteBook_def Let_def librarianInv_notify
  by (rule librarianInv_saveBooks) (auto simp: librarianInv_def list_all_iff)

lemma librarianInv_editBook:
  "librarianInv s \<Longrightarrow> book \<in> set (books_ad s) \<Longrightarrow> librarianInv (handleEditBook book s)"
  by (simp add: handleEditBook_def librarianInv_def formLending_formOfBook list_all_iff)

lemma librarianInv_returnBook: "librarianInv s \<Longrightarrow> librarianInv (handleReturnBook bid s)"
  unfolding handleReturnBook_def Let_def librarianInv_notify
  by (rule librarianInv_saveBooks) (simp_all add: librarianInv_books list_all_map_if returned_inv)

lemma librarianInv_addBook: "librarianInv s \<Longrightarrow> librarianInv (openAddBookModal s)"
  by (simp add: openAddBookModal_def librarianInv_def formLending_blank)

lemma librarianInv_changeBook: "librarianInv s \<Longrightarrow> librarianInv (onChangeBook inp v s)"
  by (cases inp) (simp_all add: librarianInv_def formLending_def)

lemma librarianInv_smartFillLate:
  "librarianInv s \<Longrightarrow> librarianInv (s\<lparr>bookForm := smartFillMerge d (bookForm s)\<rparr>)"
  by (simp add: librarianInv_def formLending_smartFillMerge)

lemma librarianInv_smartFill: "librarianInv s \<Longrightarrow> librarianInv (handleSmartFill outcome s)"
  by (simp add: handleSmartFill_def librarianInv_notify librarianInv_smartFillLate
      split: settled.splits option.splits)

lemma librarianInv_closeBook: "librarianInv s \<Longrightarrow> librarianInv (s\<lparr>isBookModalOpen := False\<rparr>)"
  by (simp add: librarianInv_def)

lemma librarianInv_bookSubmit:
  assumes inv: "librarianInv s"
  shows "librarianInv (handleBookSubmit now s)"
proof -
  have edit: "list_all lendingInvariant
      (map (\<lambda>b. if Some (id_b b) = id_f (bookForm s) then spreadBook b (bookForm s) else b)
         (books_ad s))"
    using inv by (intro list_all_map_if) (simp_all add: librarianInv_def spreadBook_inv list_all_iff)
  have add: "list_all lendingInvariant (books_ad s @ [nb])"
    if "\<not> isIssued nb" "issuedToUserId nb = None" "issuedDate nb = None" for nb
    using inv that by (simp add: librarianInv_def lendingInvariant_def)
  show ?thesis
    unfolding handleBookSubmit_def Let_def
    by (auto simp: librarianInv_notify inv split: option.splits
        intro!: librarianInv_closeBook librarianInv_saveBooks [OF inv] edit add)
qed

lemma librarianInv_userModal: "librarianInv s \<Longrightarrow> librarianInv (openUserModal r userToEdit s)"
  by (simp add: openUserModal_def librarianInv_def split: option.splits)

lemma librarianInv_deleteUser: "librarianInv s \<Longrightarrow> librarianInv (handleDeleteUser userId s)"
  by (simp add: handleDeleteUser_def Let_def librarianInv_notify librarianInv_saveUsers)

lemma librarianInv_closeUser: "librarianInv s \<Longrightarrow> librarianInv (s\<lparr>isUserModalOpen := False\<rparr>)"
  by (simp add: librarianInv_def)

lemma librarianInv_userSubmit: "librarianInv s \<Longrightarrow> librarianInv (handleUserSubmit now s)"
  unfolding handleUserSubmit_def Let_def
  by (auto simp: librarianInv_notify split: option.splits
      intro!: librarianInv_closeUser librarianInv_saveUsers)

lemma librarianInv_changeUser: "librarianInv s \<Longrightarrow> librarianInv (onChangeUser uinp v s)"
  by (cases uinp) (simp_all add: librarianInv_def)

subsection \<open>Every session keeps the invariant\<close>

lemma sessions_inv:
  "store ls \<Longrightarrow> storeInv ls" "student u \<Longrightarrow> studentInv u" "librarian s \<Longrightarrow> librarianInv s"
proof (induction rule: store_student_librarian.inducts)
qed (simp_all add: storeInv_empty storeInv_seedData storeInv_login storeInv_signup
      storeInv_logout studentInv_mount studentInv_issue studentInv_returnClick
      studentInv_search studentInv_select librarianInv_mount librarianInv_imageUpload
      librarianInv_deleteBook librarianInv_editBook librarianInv_returnBook
      librarianInv_addBook librarianInv_changeBook librarianInv_smartFill
      librarianInv_smartFillLate librarianInv_bookSubmit librarianInv_closeBook
      librarianInv_userModal librarianInv_deleteUser librarianInv_userSubmit
      librarianInv_changeUser librarianInv_closeUser,
    simp_all add: studentInv_def librarianInv_def)

text \<open>
  Claim C1. A book keeps the lending invariant when \<open>isIssued\<close> is true exactly when
  \<open>issuedToUserId\<close> is not \<open>null\<close>, and that exactly when \<open>issuedDate\<close> is not \<open>null\<close>.
  The seeded books keep it. In every store the application can leave behind, and in the store
  of every dashboard while it is mounted, every book keeps it: the sessions start from the
  empty store, seed it, and run issue, return, book creation, book edit and book deletion (and
  every other handler) in any order. Each of the operations that write the books keeps the
  invariant of its dashboard: the stored list and the list on display keep the lending
  invariant, and the lending keys of the open form are those of a book that keeps it.
\<close>

theorem lending_invariant_holds:
  "list_all lendingInvariant (initialBooks plusDays seedTime) \<and>
   (store ls \<longrightarrow> list_all lendingInvariant (getBooks ls)) \<and>
   (student u \<longrightarrow> list_all lendingInvariant (getBooks (storage_ud u))) \<and>
   (librarian s \<longrightarrow> list_all lendingInvariant (getBooks (storage_ad s))) \<and>
   (studentInv u \<longrightarrow> studentInv (handleIssueBook cu now book u)) \<and>
   (librarianInv s \<longrightarrow>
      librarianInv (handleReturnBook bid s) \<and>
      librarianInv (handleDeleteBook bid s) \<and>
      librarianInv (handleBookSubmit now s) \<and>
      (book \<in> set (books_ad s) \<longrightarrow> librarianInv (handleEditBook book s)))"
  using sessions_inv(1) [of ls] sessions_inv(2) [of u] sessions_inv(3) [of s]
    initialBooks_inv [of plusDays seedTime] studentInv_issue [of u cu now book]
    librarianInv_returnBook [of s bid] librarianInv_deleteBook [of s bid]
    librarianInv_bookSubmit [of s now] librarianInv_editBook [of s book]
  by (simp add: storeInv_def studentInv_def librarianInv_def)

text \<open>On the seeded store: a student issues ``The Great Gatsby'', and the librarian takes
  back ``Clean Code''.\<close>

theorem lending_invariant_holds_witness:
  "store (seedData fixedZone 0 emptyStorage) \<and>
   list_all lendingInvariant (getBooks (seedData fixedZone 0 emptyStorage)) \<and>
   student (handleIssueBook (hd initialUsers) 5 (hd (initialBooks fixedZone 0))
              (mountUserDashboard (seedData fixedZone 0 emptyStorage))) \<and>
   list_all lendingInvariant
     (getBooks (storage_ud (handleIssueBook (hd initialUsers) 5 (hd (initialBooks fixedZone 0))
              (mountUserDashboard (seedData fixedZone 0 emptyStorage))))) \<and>
   librarian (handleReturnBook ''b3'' (mountAdminDashboard (seedData fixedZone 0 emptyStorage))) \<and>
   list_all lendingInvariant
     (getBooks (storage_ad (handleReturnBook ''b3''
        (mountAdminDashboard (seedData fixedZone 0 emptyStorage)))))"
proof -
  let ?ls = "seedData fixedZone 0 emptyStorage"
  let ?u = "handleIssueBook (hd initialUsers) 5 (hd (initialBooks fixedZone 0))
              (mountUserDashboard ?ls)"
  let ?s = "handleReturnBook ''b3'' (mountAdminDashboard ?ls)"
  have 1: "store ?ls" by (intro store_student_librarian.intros)
  have 2: "student ?u" using 1 by (intro store_student_librarian.intros)
  have 3: "librarian ?s" using 1 by (intro store_student_librarian.intros)
  from 1 2 3 lending_invariant_holds [of _ _ ?ls ?u ?s] show ?thesis by blast
qed

section \<open>Issuing a book\<close>

lemma issue_noop: "isIssued book \<Longrightarrow> handleIssueBook cu now book s = s"
  by (simp add: handleIssueBook_def)

lemma issue_books:
  "\<not> isIssued book \<Longrightarrow>
   books_ud (handleIssueBook cu now book s) =
     map (\<lambda>b. if id_b b = id_b book
               then b\<lparr>isIssued := True, issuedToUserId := Some (id_u cu), issuedDate := Some now\<rparr>
               else b) (books_ud s)"
  by (simp add: handleIssueBook_def Let_def)

lemma issue_storage:
  "\<not> isIssued book \<Longrightarrow>
   getBooks (storage_ud (handleIssueBook cu now book s)) = books_ud (handleIssueBook cu now book s)"
  by (simp add: handleIssueBook_def Let_def getBooks_saveBooks)

lemma issued_all:
  "list_all (\<lambda>b. id_b b = bid \<longrightarrow>
                 isIssued b \<and> issuedToUserId b = Some u \<and> issuedDate b = Some t)
     (map (\<lambda>b. if id_b b = bid
               then b\<lparr>isIssued := True, issuedToUserId := Some u, issuedDate := Some t\<rparr>
               else b) xs)"
  by (induction xs) simp_all

text \<open>
  Claim C2. Let \<open>s'\<close> be the dashboard after \<open>handleIssueBook\<close> for the acting user \<open>cu\<close> at
  time \<open>now\<close> on the book \<open>book\<close>. If \<open>book\<close> is not issued, the list of \<open>s'\<close> is the list that
  is stored, has the books of the old list in their places, every book with the id of \<open>book\<close> is
  issued to \<open>cu\<close> at \<open>now\<close> with its other fields as before, every other book is as before,
  and \<open>book\<close> itself, when it is on the list, is there as issued to \<open>cu\<close> at \<open>now\<close>. If
  \<open>book\<close> is issued already, \<open>s'\<close> is the old dashboard: neither list nor store changes.
\<close>

theorem issue_book:
  assumes "s' = handleIssueBook cu now book s"
  shows "(\<not> isIssued book \<longrightarrow>
            getBooks (storage_ud s') = books_ud s' \<and>
            length (books_ud s') = length (books_ud s) \<and>
            (\<forall>i < length (books_ud s).
               (id_b (books_ud s ! i) = id_b book \<longrightarrow>
                  books_ud s' ! i = (books_ud s ! i)\<lparr>isIssued := True,
                    issuedToUserId := Some (id_u cu), issuedDate := Some now\<rparr>) \<and>
               (id_b (books_ud s ! i) \<noteq> id_b book \<longrightarrow> books_ud s' ! i = books_ud s ! i)) \<and>
            (\<forall>b \<in> set (books_ud s'). id_b b = id_b book \<longrightarrow>
               isIssued b \<and> issuedToUserId b = Some (id_u cu) \<and> issuedDate b = Some now) \<and>
            (book \<in> set (books_ud s) \<longrightarrow>
               book\<lparr>isIssued := True, issuedToUserId := Some (id_u cu), issuedDate := Some now\<rparr>
                 \<in> set (books_ud s'))) \<and>
         (isIssued book \<longrightarrow> s' = s)"
proof (intro conjI impI)
  assume "isIssued book"
  then show "s' = s" unfolding assms by (rule issue_noop)
next
  assume free: "\<not> isIssued book"
  note bs = issue_books [OF free, of cu now s]
  show "getBooks (storage_ud s') = books_ud s'"
    unfolding assms by (rule issue_storage [OF free])
  show "length (books_ud s') = length (books_ud s)"
    unfolding assms by (simp add: bs)
  show "\<forall>i < length (books_ud s).
          (id_b (books_ud s ! i) = id_b book \<longrightarrow>
             books_ud s' ! i = (books_ud s ! i)\<lparr>isIssued := True,
               issuedToUserId := Some (id_u cu), issuedDate := Some now\<rparr>) \<and>
          (id_b (books_ud s ! i) \<noteq> id_b book \<longrightarrow> books_ud s' ! i = books_ud s ! i)"
    unfolding assms by (simp add: bs)
  show "\<forall>b \<in> set (books_ud s'). id_b b = id_b book \<longrightarrow>
          isIssued b \<and> issuedToUserId b = Some (id_u cu) \<and> issuedDate b = Some now"
    unfolding assms bs using issued_all [of "id_b book" "id_u cu" now "books_ud s"]
    by (simp only: list_all_iff)
  assume "book \<in> set (books_ud s)"
  then show "book\<lparr>isIssued := True, issuedToUserId := Some (id_u cu), issuedDate := Some now\<rparr>
               \<in> set (books_ud s')"
    unfolding assms bs by force
qed

text \<open>On the seeded store: John Doe issues ``The Great Gatsby'', and cannot issue
  ``Clean Code'', which is out already.\<close>

theorem issue_book_witness:
  "\<not> isIssued (initialBooks fixedZone 0 ! 0) \<and>
   initialBooks fixedZone 0 ! 0 \<in> set (books_ud (mountUserDashboard (seedData fixedZone 0 emptyStorage))) \<and>
   (initialBooks fixedZone 0 ! 0)\<lparr>isIssued := True, issuedToUserId := Some ''user1'',
       issuedDate := Some 5\<rparr>
     \<in> set (books_ud (handleIssueBook (initialUsers ! 1) 5 (initialBooks fixedZone 0 ! 0)
                        (mountUserDashboard (seedData fixedZone 0 emptyStorage)))) \<and>
   isIssued (initialBooks fixedZone 0 ! 2) \<and>
   handleIssueBook (initialUsers ! 1) 5 (initialBooks fixedZone 0 ! 2)
       (mountUserDashboard (seedData fixedZone 0 emptyStorage))
     = mountUserDashboard (seedData fixedZone 0 emptyStorage)"
proof -
  let ?s = "mountUserDashboard (seedData fixedZone 0 emptyStorage)"
  let ?b1 = "initialBooks fixedZone 0 ! 0"
  let ?b3 = "initialBooks fixedZone 0 ! 2"
  have free: "\<not> isIssued ?b1" by (simp add: initialBooks_def)
  have out: "isIssued ?b3" by (simp add: initialBooks_def)
  have mem: "?b1 \<in> set (books_ud ?s)"
    by (simp add: mountUserDashboard_def seedData_def emptyStorage_def getBooks_def
        initialBooks_def)
  have uid: "id_u (initialUsers ! 1) = ''user1''" by (simp add: initialUsers_def)
  from issue_book [OF refl, of ?b1 "initialUsers ! 1" 5 ?s] free mem
  have "?b1\<lparr>isIssued := True, issuedToUserId := Some (id_u (initialUsers ! 1)),
            issuedDate := Some 5\<rparr>
          \<in> set (books_ud (handleIssueBook (initialUsers ! 1) 5 ?b1 ?s))"
    by blast
  moreover from issue_book [OF refl, of ?b3 "initialUsers ! 1" 5 ?s] out
  have "handleIssueBook (initialUsers ! 1) 5 ?b3 ?s = ?s" by blast
  ultimately show ?thesis using free out mem by (simp only: uid simp_thms)
qed

section \<open>Returning a book\<close>

lemma return_books:
  "books_ad (handleReturnBook bookId s) =
     map (\<lambda>b. if id_b b = bookId
               then b\<lparr>isIssued := False, issuedToUserId := None, issuedDate := None\<rparr>
               else b) (books_ad s)"
  by (simp add: handleReturnBook_def Let_def notify_ad_def loadData_def getBooks_saveBooks)

lemma return_storage:
  "getBooks (storage_ad (handleReturnBook bookId s)) = books_ad (handleReturnBook bookId s)"
  by (simp add: handleReturnBook_def Let_def notify_ad_def loadData_def getBooks_saveBooks)

lemma returned_all:
  "list_all (\<lambda>b. id_b b = bookId \<longrightarrow>
                 \<not> isIssued b \<and> issuedToUserId b = None \<and> issuedDate b = None)
     (map (\<lambda>b. if id_b b = bookId
               then b\<lparr>isIssued := False, issuedToUserId := None, issuedDate := None\<rparr>
               else b) xs)"
  by (induction xs) simp_all

text \<open>
  Claim C3. Let \<open>s'\<close> be the dashboard after \<open>handleReturnBook\<close> on the id \<open>bookId\<close>. The list
  of \<open>s'\<close> is the list that is stored and has the books of the old list in their places; every
  book with that id has \<open>isIssued\<close> false, \<open>issuedToUserId\<close> and \<open>issuedDate\<close> \<open>null\<close> and
  its other fields as before, whoever held it; every book with another id is as before.
\<close>

theorem return_book:
  assumes "s' = handleReturnBook bookId s"
  shows "getBooks (storage_ad s') = books_ad s' \<and>
         length (books_ad s') = length (books_ad s) \<and>
         (\<forall>i < length (books_ad s).
            (id_b (books_ad s ! i) = bookId \<longrightarrow>
               books_ad s' ! i = (books_ad s ! i)\<lparr>isIssued := False, issuedToUserId := None,
                 issuedDate := None\<rparr>) \<and>
            (id_b (books_ad s ! i) \<noteq> bookId \<longrightarrow> books_ad s' ! i = books_ad s ! i)) \<and>
         (\<forall>b \<in> set (books_ad s'). id_b b = bookId \<longrightarrow>
            \<not> isIssued b \<and> issuedToUserId b = None \<and> issuedDate b = None)"
proof (intro conjI)
  show "getBooks (storage_ad s') = books_ad s'"
    unfolding assms by (rule return_storage)
  show "length (books_ad s') = length (books_ad s)"
    unfolding assms by (simp add: return_books)
  show "\<forall>i < length (books_ad s).
          (id_b (books_ad s ! i) = bookId \<longrightarrow>
             books_ad s' ! i = (books_ad s ! i)\<lparr>isIssued := False, issuedToUserId := None,
               issuedDate := None\<rparr>) \<and>
          (id_b (books_ad s ! i) \<noteq> bookId \<longrightarrow> books_ad s' ! i = books_ad s ! i)"
    unfolding assms by (simp add: return_books)
  show "\<forall>b \<in> set (books_ad s'). id_b b = bookId \<longrightarrow>
          \<not> isIssued b \<and> issuedToUserId b = None \<and> issuedDate b = None"
    unfolding assms return_books using returned_all [of bookId "books_ad s"]
    by (simp only: list_all_iff)
qed

text \<open>On the seeded store: the librarian takes back ``Clean Code'', held by John Doe.\<close>

theorem return_book_witness:
  "(2::nat) < length (books_ad (mountAdminDashboard (seedData fixedZone 0 emptyStorage))) \<and>
   id_b (books_ad (mountAdminDashboard (seedData fixedZone 0 emptyStorage)) ! 2) = ''b3'' \<and>
   issuedToUserId (books_ad (mountAdminDashboard (seedData fixedZone 0 emptyStorage)) ! 2)
     = Some ''user1'' \<and>
   books_ad (handleReturnBook ''b3'' (mountAdminDashboard (seedData fixedZone 0 emptyStorage))) ! 2
     = (initialBooks fixedZone 0 ! 2)\<lparr>isIssued := False, issuedToUserId := None,
          issuedDate := None\<rparr> \<and>
   books_ad (handleReturnBook ''b3'' (mountAdminDashboard (seedData fixedZone 0 emptyStorage))) ! 0
     = initialBooks fixedZone 0 ! 0"
proof -
  let ?s = "mountAdminDashboard (seedData fixedZone 0 emptyStorage)"
  have bs: "books_ad ?s = initialBooks fixedZone 0"
    by (simp add: mountAdminDashboard_def seedData_def emptyStorage_def getBooks_def)
  have len: "(2::nat) < length (books_ad ?s)" "(0::nat) < length (books_ad ?s)"
    by (simp_all add: bs initialBooks_def)
  have ids: "id_b (books_ad ?s ! 2) = ''b3''" "id_b (books_ad ?s ! 0) \<noteq> ''b3''"
    "issuedToUserId (books_ad ?s ! 2) = Some ''user1''"
    by (simp_all add: bs initialBooks_def getPastDate_def)
  from return_book [OF refl, of "''b3''" ?s] len ids
  have "books_ad (handleReturnBook ''b3'' ?s) ! 2
          = (books_ad ?s ! 2)\<lparr>isIssued := False, issuedToUserId := None, issuedDate := None\<rparr>"
    and "books_ad (handleReturnBook ''b3'' ?s) ! 0 = books_ad ?s ! 0"
    by blast+
  then show ?thesis using len ids by (simp only: bs simp_thms)
qed

section \<open>Doubles\<close>

lemma roundToEven_error: "\<bar>real_of_int (roundToEven y) - y\<bar> \<le> 1 / 2"
  unfolding roundToEven_def Let_def by (auto; linarith)

lemma roundToEven_of_int: "roundToEven (of_int n) = n"
  by (simp add: roundToEven_def)

lemma roundToEven_nonneg: "0 \<le> y \<Longrightarrow> 0 \<le> roundToEven y"
  by (auto simp: roundToEven_def Let_def)

lemma pow2_powr: "pow2 e = 2 powr (real_of_int e)"
  by (simp add: pow2_def powr_real_of_int field_simps)

lemma pow2_pos: "0 < pow2 e"
  by (simp add: pow2_powr)

lemma pow2_mono: "a \<le> b \<Longrightarrow> pow2 a \<le> pow2 b"
  by (simp add: pow2_powr)

lemma pow2_add: "pow2 (a + b) = pow2 a * pow2 b"
  by (simp add: pow2_powr powr_add)

lemma binade_bounds:
  assumes "x \<noteq> 0"
  shows "pow2 (binade x) \<le> \<bar>x\<bar> \<and> \<bar>x\<bar> < pow2 (binade x + 1)"
proof -
  have "0 < \<bar>x\<bar>" using assms by simp
  from floor_log_eq_powr_iff [OF this, of 2 "binade x"]
  show ?thesis by (simp add: binade_def pow2_powr)
qed

lemma binade_unique:
  assumes "pow2 e \<le> \<bar>x\<bar>" "\<bar>x\<bar> < pow2 (e + 1)"
  shows "binade x = e"
proof -
  have "0 < \<bar>x\<bar>" using assms(1) pow2_pos [of e] by linarith
  from floor_log_eq_powr_iff [OF this, of 2 e] assms
  show ?thesis by (simp add: binade_def pow2_powr)
qed

lemma binade_less:
  assumes "x \<noteq> 0" "\<bar>x\<bar> < pow2 k"
  shows "binade x < k"
proof (rule ccontr)
  assume "\<not> binade x < k"
  then have "pow2 k \<le> pow2 (binade x)" by (intro pow2_mono) simp
  with binade_bounds [OF assms(1)] assms(2) show False by linarith
qed

lemma binade_ge:
  assumes "pow2 k \<le> \<bar>x\<bar>"
  shows "k \<le> binade x"
proof (rule ccontr)
  assume "\<not> k \<le> binade x"
  then have "pow2 (binade x + 1) \<le> pow2 k" by (intro pow2_mono) simp
  moreover have "x \<noteq> 0" using assms pow2_pos [of k] by auto
  ultimately show False using binade_bounds [of x] assms by linarith
qed

lemma toDouble_error:
  assumes "x \<noteq> 0"
  shows "\<bar>toDouble x - x\<bar> \<le> pow2 (max (binade x) (- 1022) - 52) / 2"
proof -
  let ?u = "pow2 (max (binade x) (- 1022) - 52)"
  have u: "0 < ?u" by (rule pow2_pos)
  have "toDouble x - x = (real_of_int (roundToEven (x / ?u)) - x / ?u) * ?u"
    using assms u by (simp add: toDouble_def Let_def field_simps)
  then have "\<bar>toDouble x - x\<bar> = \<bar>real_of_int (roundToEven (x / ?u)) - x / ?u\<bar> * ?u"
    using u by (simp add: abs_mult)
  also have "\<dots> \<le> (1 / 2) * ?u"
    using roundToEven_error [of "x / ?u"] u by (intro mult_right_mono) simp_all
  finally show ?thesis by simp
qed

lemma toDouble_of_int:
  assumes "\<bar>n\<bar> \<le> 2 ^ 53"
  shows "toDouble (real_of_int n) = real_of_int n"
proof (cases "n = 0")
  case True
  then show ?thesis by (simp add: toDouble_def)
next
  case False
  let ?x = "real_of_int n"
  let ?e = "binade ?x"
  have x: "?x \<noteq> 0" using False by simp
  have "pow2 0 \<le> \<bar>?x\<bar>" using False by (simp add: pow2_def)
  then have lo: "0 \<le> ?e" by (rule binade_ge)
  have "\<bar>?x\<bar> \<le> 2 ^ 53" using assms by (metis of_int_abs of_int_le_iff of_int_numeral of_int_power)
  then have "\<bar>?x\<bar> < pow2 54" by (simp add: pow2_def)
  then have hi: "?e < 54" by (rule binade_less [OF x])
  have m: "max ?e (- 1022) = ?e" using lo by simp
  have "\<exists>k. ?x / pow2 (?e - 52) = real_of_int k"
  proof (cases "?e \<le> 52")
    case True
    then have "pow2 (?e - 52) = 1 / 2 ^ nat (52 - ?e)"
      by (cases "?e = 52") (simp_all add: pow2_def)
    then have "?x / pow2 (?e - 52) = real_of_int (n * 2 ^ nat (52 - ?e))" by simp
    then show ?thesis by blast
  next
    case False
    with hi have e: "?e = 53" by simp
    from binade_bounds [OF x] e have "2 ^ 53 \<le> \<bar>?x\<bar>" by (simp add: pow2_def)
    with \<open>\<bar>?x\<bar> \<le> 2 ^ 53\<close> have "\<bar>?x\<bar> = 2 ^ 53" by simp
    then have "\<bar>n\<bar> = 2 ^ 53"
      by (metis of_int_abs of_int_eq_iff of_int_numeral of_int_power)
    then have "\<bar>n\<bar> = 9007199254740992" by simp
    then have "n = 2 * (n div 2)" by presburger
    then have half: "?x = 2 * real_of_int (n div 2)"
      by (metis of_int_mult of_int_numeral)
    have p: "pow2 (?e - 52) = 2" by (simp add: e pow2_def)
    have "?x / pow2 (?e - 52) = real_of_int (n div 2)"
      unfolding p using half by simp
    then show ?thesis by blast
  qed
  then obtain k where k: "?x / pow2 (?e - 52) = real_of_int k" by blast
  have "toDouble ?x = real_of_int (roundToEven (?x / pow2 (?e - 52))) * pow2 (?e - 52)"
    using x by (simp add: toDouble_def Let_def m)
  also have "\<dots> = real_of_int k * pow2 (?e - 52)" by (simp add: k roundToEven_of_int)
  also have "\<dots> = ?x" using k pow2_pos [of "?e - 52"] by (simp add: field_simps)
  finally show ?thesis .
qed

lemma roundInt_exact: "\<bar>n\<bar> \<le> 2 ^ 53 \<Longrightarrow> roundInt n = n"
  by (simp add: roundInt_def toDouble_of_int)

lemma ceiling_toDouble_days:
  fixes d :: int
  assumes "0 < d" "d \<le> 2 ^ 53"
  shows "\<lceil>toDouble (real_of_int d / 86400000)\<rceil> = \<lceil>real_of_int d / 86400000\<rceil>"
proof -
  define x where "x = real_of_int d / 86400000"
  define c where "c = \<lceil>x\<rceil>"
  have x0: "0 < x" using assms(1) by (simp add: x_def)
  have "real_of_int d \<le> 2 ^ 53" using assms(2)
    by (metis of_int_le_iff of_int_numeral of_int_power)
  then have xhi: "x < 2 ^ 27" by (simp add: x_def)
  have cx: "real_of_int c - 1 < x" "x \<le> real_of_int c"
    unfolding c_def by linarith+
  have "\<lceil>toDouble x\<rceil> = c"
  proof (cases "x = real_of_int c")
    case True
    have "0 < c" using x0 cx by linarith
    moreover have "c \<le> 2 ^ 27" using xhi by (simp add: c_def ceiling_le_iff)
    ultimately have "\<bar>c\<bar> \<le> 2 ^ 53" by simp
    from toDouble_of_int [OF this] show ?thesis by (simp add: True)
  next
    case False
    have d: "real_of_int d = x * 86400000" by (simp add: x_def)
    have "real_of_int ((c - 1) * 86400000) < real_of_int d"
      using cx(1) by (simp add: d)
    then have "(c - 1) * 86400000 < d" by (simp only: of_int_less_iff)
    then have "(c - 1) * 86400000 + 1 \<le> d" by simp
    then have "real_of_int ((c - 1) * 86400000 + 1) \<le> real_of_int d"
      by (simp only: of_int_le_iff)
    then have dn: "real_of_int c - 1 + 1 / 86400000 \<le> x" by (simp add: d)
    have "real_of_int d < real_of_int (c * 86400000)"
      using cx(2) False by (simp add: d)
    then have "d < c * 86400000" by (simp only: of_int_less_iff)
    then have "d \<le> c * 86400000 - 1" by simp
    then have "real_of_int d \<le> real_of_int (c * 86400000 - 1)" by (simp only: of_int_le_iff)
    then have up: "x \<le> real_of_int c - 1 / 86400000" by (simp add: d)
    have xn: "x \<noteq> 0" using x0 by simp
    have "\<bar>x\<bar> < pow2 27" using xhi x0 by (simp add: pow2_def)
    then have "binade x < 27" by (rule binade_less [OF xn])
    then have "max (binade x) (- 1022) - 52 \<le> - 26" by simp
    then have "pow2 (max (binade x) (- 1022) - 52) \<le> pow2 (- 26)" by (rule pow2_mono)
    with toDouble_error [OF xn] have "\<bar>toDouble x - x\<bar> \<le> pow2 (- 26) / 2" by linarith
    then have err: "\<bar>toDouble x - x\<bar> < 1 / 86400000" by (simp add: pow2_def)
    from err up dn have "real_of_int c - 1 < toDouble x" "toDouble x \<le> real_of_int c"
      by linarith+
    then show ?thesis by (simp add: ceiling_eq_iff)
  qed
  then show ?thesis by (simp add: c_def x_def)
qed

section \<open>The fine\<close>

lemma diffDays_exact:
  assumes "due < today" "today - due \<le> 2 ^ 53"
  shows "diffDays today due = \<lceil>real_of_int (today - due) / real_of_int msPerDay\<rceil>"
proof -
  have "\<bar>today - due\<bar> \<le> 2 ^ 53" using assms by simp
  then have "roundInt (today - due) = today - due" by (rule roundInt_exact)
  then have "\<bar>roundInt (today - due)\<bar> = today - due" using assms(1) by simp
  then have "diffDays today due = \<lceil>toDouble (real_of_int (today - due) / 86400000)\<rceil>"
    by (simp add: diffDays_def)
  also have "\<dots> = \<lceil>real_of_int (today - due) / 86400000\<rceil>"
    using assms by (intro ceiling_toDouble_days) simp_all
  finally show ?thesis by (simp add: msPerDay_def)
qed

lemma diffDays_small:
  assumes "due < today" "today - due \<le> 2 ^ 53"
  shows "0 \<le> diffDays today due \<and> diffDays today due \<le> 2 ^ 27"
proof -
  have "real_of_int (today - due) \<le> 2 ^ 53" using assms(2)
    by (metis of_int_le_iff of_int_numeral of_int_power)
  then have "real_of_int (today - due) / real_of_int msPerDay \<le> 2 ^ 27"
    by (simp add: msPerDay_def)
  then have "\<lceil>real_of_int (today - due) / real_of_int msPerDay\<rceil> \<le> 2 ^ 27"
    by (simp add: ceiling_le_iff)
  moreover have "0 < real_of_int (today - due) / real_of_int msPerDay"
    using assms(1) by (simp add: msPerDay_def)
  then have "0 < \<lceil>real_of_int (today - due) / real_of_int msPerDay\<rceil>" by simp
  ultimately show ?thesis unfolding diffDays_exact [OF assms] by simp
qed

lemma fine_exact:
  assumes "\<bar>plusDays issueDate 7\<bar> \<le> maxTime" "plusDays issueDate 7 < now"
    "now - plusDays issueDate 7 \<le> 2 ^ 53"
  shows "fine plusDays issueDate now = fineSpec (plusDays issueDate 7) now"
proof -
  let ?due = "plusDays issueDate 7"
  have due: "dueDate plusDays issueDate = Some ?due"
    using assms(1) by (simp add: dueDate_def timeClip_def)
  from diffDays_small [OF assms(2,3)] have "\<bar>diffDays now ?due * 5\<bar> \<le> 2 ^ 53" by simp
  then have "roundInt (diffDays now ?due * 5) = diffDays now ?due * 5" by (rule roundInt_exact)
  then show ?thesis
    using assms(2) by (simp add: fine_def due fineSpec_def diffDays_exact [OF assms(2,3)])
qed

lemma fine_not_overdue:
  assumes "now \<le> plusDays issueDate 7 \<or> maxTime < \<bar>plusDays issueDate 7\<bar>"
  shows "fine plusDays issueDate now = 0"
  using assms by (auto simp: fine_def dueDate_def timeClip_def)

lemma fine_fixedZone:
  assumes "\<bar>issueDate + 7 * msPerDay\<bar> \<le> maxTime" "now - (issueDate + 7 * msPerDay) \<le> 2 ^ 53"
  shows "fine fixedZone issueDate now = fineClaimed issueDate now"
proof (cases "issueDate + 7 * msPerDay < now")
  case True
  with assms show ?thesis
    using fine_exact [of fixedZone issueDate now] by (simp add: fixedZone_def fineClaimed_def)
next
  case False
  then show ?thesis
    using fine_not_overdue [of now fixedZone issueDate]
    by (simp add: fixedZone_def fineClaimed_def fineSpec_def)
qed

lemma toDouble_tie_example: "roundInt 9007199308800001 = 9007199308800000"
proof -
  have "binade 9007199308800001 = 53"
    by (rule binade_unique) (simp_all add: pow2_def)
  then show ?thesis
    by (simp add: roundInt_def toDouble_def pow2_def roundToEven_def Let_def)
qed

lemma fine_far_example:
  "fine fixedZone (- 367199913600001) 8640000000000000 = 521249960"
proof -
  have due: "dueDate fixedZone (- 367199913600001) = Some (- 367199308800001)"
    by (simp add: dueDate_def timeClip_def fixedZone_def msPerDay_def maxTime_def)
  have "toDouble (real_of_int 104249992) = real_of_int 104249992"
    by (rule toDouble_of_int) simp
  then have q: "toDouble 104249992 = 104249992" by simp
  have dd: "diffDays 8640000000000000 (- 367199308800001) = 104249992"
    by (simp add: diffDays_def toDouble_tie_example q)
  have "roundInt (104249992 * 5) = 104249992 * 5" by (rule roundInt_exact) simp
  then show ?thesis by (simp add: fine_def due dd)
qed

lemma fineClaimed_far_example:
  "fineClaimed (- 367199913600001) 8640000000000000 = 521249965"
  by (simp add: fineClaimed_def fineSpec_def msPerDay_def)

lemma newYork_due: "newYork2024 1709640000000 7 = 1710241200000"
  by (simp add: newYork2024_def newYorkOffset_def newYorkLocalOffset_def msPerDay_def Let_def)

lemma fine_newYork_early: "fine newYork2024 1709640000000 1710243000000 = 5"
proof -
  have "\<lceil>(1::real) / 48\<rceil> = 1" by (simp add: ceiling_eq_iff)
  then show ?thesis
    using fine_exact [of newYork2024 1709640000000 1710243000000]
    by (simp add: newYork_due maxTime_def fineSpec_def msPerDay_def)
qed

lemma fine_newYork_fourteen: "fine newYork2024 (1710849600000 - 14 * msPerDay) 1710849600000 = 40"
proof -
  have i: "1710849600000 - 14 * msPerDay = 1709640000000" by (simp add: msPerDay_def)
  show ?thesis unfolding i
    using fine_exact [of newYork2024 1709640000000 1710849600000]
    by (simp add: newYork_due maxTime_def fineSpec_def msPerDay_def)
qed

lemma toDouble_nonneg: "0 \<le> x \<Longrightarrow> 0 \<le> toDouble x"
  using pow2_pos [of "max (binade x) (- 1022) - 52"]
  by (simp add: toDouble_def Let_def roundToEven_nonneg)

lemma roundInt_nonneg: "0 \<le> n \<Longrightarrow> 0 \<le> roundInt n"
  by (simp add: roundInt_def toDouble_nonneg)

lemma diffDays_nonneg: "0 \<le> diffDays today due"
proof -
  have "0 \<le> toDouble (real_of_int \<bar>roundInt (today - due)\<bar> / real_of_int (1000 * 60 * 60 * 24))"
    by (intro toDouble_nonneg) simp
  then have "- 1 < toDouble (real_of_int \<bar>roundInt (today - due)\<bar> / real_of_int (1000 * 60 * 60 * 24))"
    by linarith
  then show ?thesis unfolding diffDays_def Let_def by (simp only: zero_le_ceiling of_int_minus of_int_1)
qed

lemma fine_nonneg: "0 \<le> fine plusDays issueDate today"
  by (simp add: fine_def Let_def roundInt_nonneg diffDays_nonneg split: option.splits)

lemma bookFine_nonneg: "0 \<le> bookFine plusDays today b"
  by (simp add: bookFine_def fine_nonneg)

lemma foldl_filter_step:
  assumes "\<And>t b. f t b = (if P b then g t b else t)"
  shows "foldl f a xs = foldl g a (filter P xs)"
  by (induction xs arbitrary: a) (simp_all add: assms)

lemma foldl_round_sum:
  assumes "\<forall>x \<in> set xs. 0 \<le> h x" "0 \<le> a" "a + sum_list (map h xs) \<le> 2 ^ 53"
  shows "foldl (\<lambda>t b. roundInt (t + h b)) a xs = a + sum_list (map h xs)"
  using assms
proof (induction xs arbitrary: a)
  case Nil
  then show ?case by simp
next
  case (Cons x xs)
  have rest: "0 \<le> sum_list (map h xs)" using Cons.prems(1) by (intro sum_list_nonneg) auto
  have hx: "0 \<le> h x" using Cons.prems(1) by simp
  have "\<bar>a + h x\<bar> \<le> 2 ^ 53" using Cons.prems(2,3) rest hx by simp
  then have r: "roundInt (a + h x) = a + h x" by (rule roundInt_exact)
  have "foldl (\<lambda>t b. roundInt (t + h b)) (a + h x) xs = a + h x + sum_list (map h xs)"
    using Cons.prems hx by (intro Cons.IH) simp_all
  then show ?case by (simp add: r)
qed

lemma totalFine_fold:
  "totalFine plusDays today books user =
     foldl (\<lambda>total b. roundInt (total + bookFine plusDays today b)) 0
       (filter (\<lambda>b. isIssued b \<and> overdueBook plusDays today b) (myBooks user books))"
  unfolding totalFine_def Let_def myBooks_def
  by (rule foldl_filter_step)
     (simp add: overdueBook_def bookFine_def fine_def Let_def split: option.splits)

lemma totalFine_sum:
  assumes "sum_list (map (bookFine plusDays today)
             (filter (\<lambda>b. isIssued b \<and> overdueBook plusDays today b) (myBooks user books)))
           \<le> 2 ^ 53"
  shows "totalFine plusDays today books user =
     sum_list (map (bookFine plusDays today)
       (filter (\<lambda>b. isIssued b \<and> overdueBook plusDays today b) (myBooks user books)))"
  unfolding totalFine_fold
  using foldl_round_sum [of _ "bookFine plusDays today" 0] assms bookFine_nonneg
  by simp

lemma diffDays_bounds:
  assumes "due < now" "now - due \<le> 2 ^ 53"
  shows "(diffDays now due - 1) * msPerDay < now - due \<and> now - due \<le> diffDays now due * msPerDay"
proof -
  have m: "0 < real_of_int msPerDay" by (simp add: msPerDay_def)
  let ?c = "\<lceil>real_of_int (now - due) / real_of_int msPerDay\<rceil>"
  have "real_of_int ?c - 1 < real_of_int (now - due) / real_of_int msPerDay" by linarith
  then have "(real_of_int ?c - 1) * real_of_int msPerDay < real_of_int (now - due)"
    using m by (simp add: pos_less_divide_eq)
  then have "real_of_int ((?c - 1) * msPerDay) < real_of_int (now - due)" by simp
  then have lo: "(?c - 1) * msPerDay < now - due" by (simp only: of_int_less_iff)
  have "real_of_int (now - due) / real_of_int msPerDay \<le> real_of_int ?c"
    by (rule le_of_int_ceiling)
  then have "real_of_int (now - due) \<le> real_of_int ?c * real_of_int msPerDay"
    by (rule iffD1 [OF pos_divide_le_eq [OF m]])
  then have "real_of_int (now - due) \<le> real_of_int (?c * msPerDay)" by simp
  then have hi: "now - due \<le> ?c * msPerDay" by (simp only: of_int_le_iff)
  from lo hi show ?thesis unfolding diffDays_exact [OF assms] by blast
qed

lemma fine_fourteen:
  assumes "\<bar>now - 7 * msPerDay\<bar> \<le> maxTime"
  shows "dueDate fixedZone (now - 14 * msPerDay) = Some (now - 7 * msPerDay) \<and>
         diffDays now (now - 7 * msPerDay) = 7 \<and>
         fine fixedZone (now - 14 * msPerDay) now = 35"
proof -
  have due: "fixedZone (now - 14 * msPerDay) 7 = now - 7 * msPerDay"
    by (simp add: fixedZone_def)
  have late: "now - 7 * msPerDay < now" "now - (now - 7 * msPerDay) \<le> 2 ^ 53"
    by (simp_all add: msPerDay_def)
  have "diffDays now (now - 7 * msPerDay) = 7"
    unfolding diffDays_exact [OF late] by (simp add: msPerDay_def)
  moreover have "fine fixedZone (now - 14 * msPerDay) now = fineSpec (now - 7 * msPerDay) now"
    using fine_exact [of fixedZone "now - 14 * msPerDay" now] assms late
    unfolding due by blast
  then have "fine fixedZone (now - 14 * msPerDay) now = 35"
    by (simp add: fineSpec_def msPerDay_def)
  ultimately show ?thesis using assms by (simp add: dueDate_def timeClip_def due)
qed

lemma fine_three: "fine fixedZone (now - 3 * msPerDay) now = 0"
  by (rule fine_not_overdue) (simp add: fixedZone_def msPerDay_def)

text \<open>
  Claim C4, as stated, fails. On a host on New York time, a book issued on 5 March 2024 at
  12:00 UTC is due on 12 March at 11:00 UTC, seven calendar days but only 167 hours later
  (the clocks went forward on 10 March): at 11:30 UTC the fine is 5, where the issue date plus
  seven days of 24 hours has not passed and the claim gives 0; and on 19 March at 12:00 UTC, for
  this book issued exactly 14 days of 24 hours before, the fine is 40, not 35. On any host, once
  the time past the due date exceeds \<open>2^53\<close> milliseconds the subtraction is rounded: for the
  two dates below the fine is 521249960, where the claim gives 521249965.
\<close>

theorem fine_counterexample:
  "fine newYork2024 1709640000000 1710243000000 = 5 \<and>
   fineClaimed 1709640000000 1710243000000 = 0 \<and>
   fine newYork2024 (1710849600000 - 14 * msPerDay) 1710849600000 = 40 \<and>
   fine fixedZone (- 367199913600001) 8640000000000000 = 521249960 \<and>
   fineClaimed (- 367199913600001) 8640000000000000 = 521249965"
  using fine_newYork_early fine_newYork_fourteen fine_far_example fineClaimed_far_example
  by (simp add: fineClaimed_def fineSpec_def msPerDay_def)

text \<open>
  Claim C4, amended. Let the due date be the issue date moved seven days forward on the
  host's local calendar (\<open>plusDays\<close>, the effect of \<open>setDate\<close>). The fine is 0 when \<open>now\<close> is
  not after the due date, or the due date is out of the range of \<open>Date\<close>. When \<open>now\<close> is after
  a valid due date by at most \<open>2^53\<close> milliseconds, the fine is five times the ceiling of the
  time past the due date over one day of 24 hours; that ceiling is \<open>diffDays\<close>, the whole number
  \<open>n\<close> with \<open>(n - 1)\<close> days \<open>< now - dueDate \<le> n\<close> days. On a host whose calendar days all have 24
  hours (\<open>fixedZone\<close>) the due date is the issue date plus \<open>7 * 86400000\<close> milliseconds and the
  fine is the one the claim words; there a book issued exactly 14 days before \<open>now\<close> is 7 days
  overdue with fine 35, and one issued 3 days before \<open>now\<close> has fine 0. The card of an issued
  book shows this fine of its \<open>issuedDate\<close>; the total in the students table adds these fines
  over the overdue books a user holds, and is their sum while that is at most \<open>2^53\<close>. A book
  has no field for a fine: both are computed from \<open>issuedDate\<close> and the current time on each
  render.
\<close>

theorem fine_computation:
  "(now \<le> plusDays issueDate 7 \<or> maxTime < \<bar>plusDays issueDate 7\<bar> \<longrightarrow>
      fine plusDays issueDate now = 0) \<and>
   (\<bar>plusDays issueDate 7\<bar> \<le> maxTime \<and> plusDays issueDate 7 < now \<and>
    now - plusDays issueDate 7 \<le> 2 ^ 53 \<longrightarrow>
      fine plusDays issueDate now =
        \<lceil>real_of_int (now - plusDays issueDate 7) / real_of_int msPerDay\<rceil> * 5 \<and>
      fine plusDays issueDate now = diffDays now (plusDays issueDate 7) * 5 \<and>
      (diffDays now (plusDays issueDate 7) - 1) * msPerDay < now - plusDays issueDate 7 \<and>
      now - plusDays issueDate 7 \<le> diffDays now (plusDays issueDate 7) * msPerDay) \<and>
   (\<bar>issueDate + 7 * msPerDay\<bar> \<le> maxTime \<and> now - (issueDate + 7 * msPerDay) \<le> 2 ^ 53 \<longrightarrow>
      fine fixedZone issueDate now = fineClaimed issueDate now) \<and>
   (\<bar>now - 7 * msPerDay\<bar> \<le> maxTime \<longrightarrow>
      dueDate fixedZone (now - 14 * msPerDay) = Some (now - 7 * msPerDay) \<and>
      diffDays now (now - 7 * msPerDay) = 7 \<and>
      fine fixedZone (now - 14 * msPerDay) now = 35) \<and>
   fine fixedZone (now - 3 * msPerDay) now = 0 \<and>
   (issuedDate book = Some issueDate \<longrightarrow>
      bookFine plusDays now book = fine plusDays issueDate now) \<and>
   totalFine plusDays now books user =
     foldl (\<lambda>total b. roundInt (total + bookFine plusDays now b)) 0
       (filter (\<lambda>b. isIssued b \<and> overdueBook plusDays now b) (myBooks user books)) \<and>
   (sum_list (map (bookFine plusDays now)
       (filter (\<lambda>b. isIssued b \<and> overdueBook plusDays now b) (myBooks user books)))
      \<le> 2 ^ 53 \<longrightarrow>
    totalFine plusDays now books user =
      sum_list (map (bookFine plusDays now)
        (filter (\<lambda>b. isIssued b \<and> overdueBook plusDays now b) (myBooks user books))))"
proof (intro conjI impI)
  assume "now \<le> plusDays issueDate 7 \<or> maxTime < \<bar>plusDays issueDate 7\<bar>"
  then show "fine plusDays issueDate now = 0" by (rule fine_not_overdue)
next
  assume late: "\<bar>plusDays issueDate 7\<bar> \<le> maxTime \<and> plusDays issueDate 7 < now \<and>
    now - plusDays issueDate 7 \<le> 2 ^ 53"
  then have l: "plusDays issueDate 7 < now" "now - plusDays issueDate 7 \<le> 2 ^ 53"
    by blast+
  from late l show f: "fine plusDays issueDate now =
        \<lceil>real_of_int (now - plusDays issueDate 7) / real_of_int msPerDay\<rceil> * 5"
    by (simp add: fine_exact fineSpec_def)
  show "fine plusDays issueDate now = diffDays now (plusDays issueDate 7) * 5"
    unfolding f diffDays_exact [OF l] ..
  from diffDays_bounds [OF l]
  show "(diffDays now (plusDays issueDate 7) - 1) * msPerDay < now - plusDays issueDate 7"
    and "now - plusDays issueDate 7 \<le> diffDays now (plusDays issueDate 7) * msPerDay"
    by blast+
next
  assume "\<bar>issueDate + 7 * msPerDay\<bar> \<le> maxTime \<and> now - (issueDate + 7 * msPerDay) \<le> 2 ^ 53"
  then show "fine fixedZone issueDate now = fineClaimed issueDate now"
    by (simp add: fine_fixedZone)
next
  assume v: "\<bar>now - 7 * msPerDay\<bar> \<le> maxTime"
  from fine_fourteen [OF v]
  show "dueDate fixedZone (now - 14 * msPerDay) = Some (now - 7 * msPerDay)"
    and "diffDays now (now - 7 * msPerDay) = 7"
    and "fine fixedZone (now - 14 * msPerDay) now = 35"
    by blast+
next
  show "fine fixedZone (now - 3 * msPerDay) now = 0" by (rule fine_three)
next
  assume "issuedDate book = Some issueDate"
  then show "bookFine plusDays now book = fine plusDays issueDate now"
    by (simp add: bookFine_def)
next
  show "totalFine plusDays now books user =
     foldl (\<lambda>total b. roundInt (total + bookFine plusDays now b)) 0
       (filter (\<lambda>b. isIssued b \<and> overdueBook plusDays now b) (myBooks user books))"
    by (rule totalFine_fold)
next
  assume "sum_list (map (bookFine plusDays now)
       (filter (\<lambda>b. isIssued b \<and> overdueBook plusDays now b) (myBooks user books)))
      \<le> 2 ^ 53"
  then show "totalFine plusDays now books user =
      sum_list (map (bookFine plusDays now)
        (filter (\<lambda>b. isIssued b \<and> overdueBook plusDays now b) (myBooks user books)))"
    by (rule totalFine_sum)
qed

text \<open>The seeded loan of ``Clean Code'' on a host of 24-hour days, read at the moment of
  seeding and one millisecond later, when the eighth day has begun; and the book of 5 March on
  the host on New York time.\<close>

theorem fine_computation_witness:
  "issuedDate (initialBooks fixedZone 0 ! 2) = Some (0 - 14 * msPerDay) \<and>
   bookFine fixedZone 0 (initialBooks fixedZone 0 ! 2) = 35 \<and>
   fine fixedZone (0 - 14 * msPerDay) 1 = 40 \<and>
   fine newYork2024 1709640000000 1710243000000 = 5 \<and>
   totalFine fixedZone 0 (initialBooks fixedZone 0) (initialUsers ! 1) = 35"
proof -
  let ?b3 = "initialBooks fixedZone 0 ! 2"
  let ?i = "0 - 14 * msPerDay"
  have date: "issuedDate ?b3 = Some ?i"
    by (simp add: initialBooks_def getPastDate_def fixedZone_def)
  have valid: "\<bar>0 - 7 * msPerDay\<bar> \<le> maxTime" by (simp add: msPerDay_def maxTime_def)
  from fine_computation [where now = 0 and plusDays = fixedZone and issueDate = ?i
      and book = ?b3] date valid
  have a: "bookFine fixedZone 0 ?b3 = 35" by simp
  have late: "\<bar>fixedZone ?i 7\<bar> \<le> maxTime \<and> fixedZone ?i 7 < 1 \<and> 1 - fixedZone ?i 7 \<le> 2 ^ 53"
    by (simp add: fixedZone_def msPerDay_def maxTime_def)
  from fine_computation [where now = 1 and plusDays = fixedZone and issueDate = ?i] late
  have "fine fixedZone ?i 1 = \<lceil>real_of_int (1 - fixedZone ?i 7) / real_of_int msPerDay\<rceil> * 5"
    by blast
  then have b: "fine fixedZone ?i 1 = 40" by (simp add: fixedZone_def msPerDay_def)
  have ny: "\<bar>newYork2024 1709640000000 7\<bar> \<le> maxTime \<and>
            newYork2024 1709640000000 7 < 1710243000000 \<and>
            1710243000000 - newYork2024 1709640000000 7 \<le> 2 ^ 53"
    by (simp add: newYork_due maxTime_def)
  from fine_computation [where now = 1710243000000 and plusDays = newYork2024
      and issueDate = 1709640000000] ny
  have "fine newYork2024 1709640000000 1710243000000 =
          \<lceil>real_of_int (1710243000000 - newYork2024 1709640000000 7) / real_of_int msPerDay\<rceil> * 5"
    by blast
  then have c: "fine newYork2024 1709640000000 1710243000000 = 5"
    by (simp add: newYork_due msPerDay_def ceiling_eq_iff)
  have mine: "filter (\<lambda>b. isIssued b \<and> overdueBook fixedZone 0 b)
                (myBooks (initialUsers ! 1) (initialBooks fixedZone 0)) = [?b3]"
    by (simp add: myBooks_def initialBooks_def initialUsers_def overdueBook_def dueDate_def
        timeClip_def getPastDate_def fixedZone_def msPerDay_def maxTime_def)
  have small: "sum_list (map (bookFine fixedZone 0) [?b3]) \<le> 2 ^ 53" by (simp add: a)
  from fine_computation [where now = 0 and plusDays = fixedZone
      and books = "initialBooks fixedZone 0" and user = "initialUsers ! 1"] small
  have "totalFine fixedZone 0 (initialBooks fixedZone 0) (initialUsers ! 1)
          = sum_list (map (bookFine fixedZone 0) [?b3])"
    unfolding mine by blast
  then have d: "totalFine fixedZone 0 (initialBooks fixedZone 0) (initialUsers ! 1) = 35"
    by (simp add: a)
  from date a b c d show ?thesis by blast
qed

section \<open>Creating an account with a library id that is taken\<close>

lemma signup_blank:
  "trim (name_s a) = [] \<or> trim (libId a) = [] \<or> trim (password_s a) = [] \<Longrightarrow>
   handleSignup trim now a = a\<lparr>notification := Some (''Please fill in all fields.'', error)\<rparr>"
  by (simp add: handleSignup_def Let_def notify_def)

lemma signup_duplicate:
  assumes "trim (name_s a) \<noteq> []" "trim (libId a) \<noteq> []" "trim (password_s a) \<noteq> []"
    and "\<exists>u \<in> set (getUsers (storage a)). libraryId u = libId a"
  shows "handleSignup trim now a =
     a\<lparr>notification := Some (''Library ID already exists. Please choose another.'', error)\<rparr>"
proof -
  from assms(4) have "find (\<lambda>u. libraryId u = libId a) (getUsers (storage a)) \<noteq> None"
    by (auto simp: find_None_iff)
  with assms(1-3) show ?thesis
    by (simp add: handleSignup_def Let_def notify_def)
qed

lemma userSubmit_blank:
  assumes "\<not> truthy (libraryId_uf (userForm s)) \<or> \<not> truthy (password_uf (userForm s))
           \<or> \<not> truthy (name_uf (userForm s))"
  shows "handleUserSubmit now s = s\<lparr>notification_ad := Some (''All fields are required.'', error)\<rparr>"
proof (cases "libraryId_uf (userForm s)")
  case None
  then show ?thesis by (simp add: handleUserSubmit_def notify_ad_def)
next
  case l: (Some l)
  show ?thesis
  proof (cases "password_uf (userForm s)")
    case None
    with l show ?thesis by (simp add: handleUserSubmit_def notify_ad_def)
  next
    case p: (Some p)
    show ?thesis
    proof (cases "name_uf (userForm s)")
      case None
      with l p show ?thesis by (simp add: handleUserSubmit_def notify_ad_def)
    next
      case (Some n)
      with l p assms have "l = [] \<or> p = [] \<or> n = []" by simp
      with l p Some show ?thesis by (simp add: handleUserSubmit_def notify_ad_def)
    qed
  qed
qed

lemma userSubmit_duplicate:
  assumes "\<not> isUserEditMode s"
    and "truthy (libraryId_uf (userForm s))" "truthy (password_uf (userForm s))"
      "truthy (name_uf (userForm s))"
    and "\<exists>u \<in> set (users_ad s). Some (libraryId u) = libraryId_uf (userForm s)"
  shows "handleUserSubmit now s =
     s\<lparr>notification_ad := Some (''This Library ID is already taken.'', error)\<rparr>"
proof -
  from assms(2-4) obtain l p n where
    f: "libraryId_uf (userForm s) = Some l" "password_uf (userForm s) = Some p"
       "name_uf (userForm s) = Some n" and ne: "l \<noteq> []" "p \<noteq> []" "n \<noteq> []"
    by (cases "libraryId_uf (userForm s)"; cases "password_uf (userForm s)";
        cases "name_uf (userForm s)") auto
  from assms(5) f have "list_ex (\<lambda>u. libraryId u = l) (users_ad s)"
    by (auto simp: list_ex_iff)
  with f ne assms(1) show ?thesis
    by (simp add: handleUserSubmit_def notify_ad_def)
qed

text \<open>
  Claim C5, as stated, fails: a signup whose name is blank and whose library id is the
  librarian's is turned down for the blank field, not as a duplicate.
\<close>

theorem duplicate_rejection_counterexample:
  "libraryId (initialUsers ! 0) = ''admin'' \<and>
   initialUsers ! 0 \<in> set (getUsers (seedData fixedZone 0 emptyStorage)) \<and>
   handleSignup asciiTrim 7
      \<lparr>storage = seedData fixedZone 0 emptyStorage,
       state = \<lparr>view = SIGNUP, currentUser = None\<rparr>,
       libId = ''admin'', password_s = ''secret'', name_s = '' '', notification = None\<rparr>
     = \<lparr>storage = seedData fixedZone 0 emptyStorage,
        state = \<lparr>view = SIGNUP, currentUser = None\<rparr>,
        libId = ''admin'', password_s = ''secret'', name_s = '' '',
        notification = Some (''Please fill in all fields.'', error)\<rparr> \<and>
   (''Please fill in all fields.'', error)
     \<noteq> (''Library ID already exists. Please choose another.'', error)"
  by (simp add: handleSignup_def Let_def notify_def asciiTrim_def isSpace_def initialUsers_def
      seedData_def emptyStorage_def getUsers_def)

text \<open>
  Claim C5, amended. A creation request with every required field filled in (signup: name,
  library id and password not blank after trimming; librarian's form in creation mode: the
  three not empty) whose library id is that of a user on the list, of either role, is turned
  down with the duplicate-identifier message, and nothing but the notification changes: the
  store, and with it the user list, is as before. A request with a blank required field is
  turned down with the missing-field message instead, again with nothing else changed.
\<close>

theorem duplicate_library_id_rejected:
  "(trim (name_s a) \<noteq> [] \<and> trim (libId a) \<noteq> [] \<and> trim (password_s a) \<noteq> [] \<and>
    (\<exists>u \<in> set (getUsers (storage a)). libraryId u = libId a) \<longrightarrow>
      handleSignup trim now a =
        a\<lparr>notification := Some (''Library ID already exists. Please choose another.'', error)\<rparr>) \<and>
   (trim (name_s a) = [] \<or> trim (libId a) = [] \<or> trim (password_s a) = [] \<longrightarrow>
      handleSignup trim now a = a\<lparr>notification := Some (''Please fill in all fields.'', error)\<rparr>) \<and>
   (\<not> isUserEditMode s \<and> truthy (libraryId_uf (userForm s)) \<and>
    truthy (password_uf (userForm s)) \<and> truthy (name_uf (userForm s)) \<and>
    (\<exists>u \<in> set (users_ad s). Some (libraryId u) = libraryId_uf (userForm s)) \<longrightarrow>
      handleUserSubmit now s =
        s\<lparr>notification_ad := Some (''This Library ID is already taken.'', error)\<rparr>) \<and>
   (\<not> truthy (libraryId_uf (userForm s)) \<or> \<not> truthy (password_uf (userForm s)) \<or>
    \<not> truthy (name_uf (userForm s)) \<longrightarrow>
      handleUserSubmit now s =
        s\<lparr>notification_ad := Some (''All fields are required.'', error)\<rparr>)"
  using signup_duplicate [of trim a now] signup_blank [of trim a now]
    userSubmit_duplicate [of s now] userSubmit_blank [of s now]
  by blast

text \<open>On the seeded store: a student signs up as ``admin''; the librarian adds a student
  ``user''; and each leaves the password out.\<close>

theorem duplicate_library_id_rejected_witness:
  "storage (handleSignup asciiTrim 7
      \<lparr>storage = seedData fixedZone 0 emptyStorage,
       state = \<lparr>view = SIGNUP, currentUser = None\<rparr>,
       libId = ''admin'', password_s = ''secret'', name_s = ''Eve'', notification = None\<rparr>)
     = seedData fixedZone 0 emptyStorage \<and>
   notification (handleSignup asciiTrim 7
      \<lparr>storage = seedData fixedZone 0 emptyStorage,
       state = \<lparr>view = SIGNUP, currentUser = None\<rparr>,
       libId = ''admin'', password_s = ''secret'', name_s = ''Eve'', notification = None\<rparr>)
     = Some (''Library ID already exists. Please choose another.'', error) \<and>
   notification (handleSignup asciiTrim 7
      \<lparr>storage = seedData fixedZone 0 emptyStorage,
       state = \<lparr>view = SIGNUP, currentUser = None\<rparr>,
       libId = ''admin'', password_s = '''', name_s = ''Eve'', notification = None\<rparr>)
     = Some (''Please fill in all fields.'', error) \<and>
   storage_ad (handleUserSubmit 7 (onChangeUser Password ''pw'' (onChangeUser Name ''Eve''
      (onChangeUser LibraryId ''user''
         (openUserModal USER None (mountAdminDashboard (seedData fixedZone 0 emptyStorage)))))))
     = seedData fixedZone 0 emptyStorage \<and>
   notification_ad (handleUserSubmit 7 (onChangeUser Password ''pw'' (onChangeUser Name ''Eve''
      (onChangeUser LibraryId ''user''
         (openUserModal USER None (mountAdminDashboard (seedData fixedZone 0 emptyStorage)))))))
     = Some (''This Library ID is already taken.'', error) \<and>
   notification_ad (handleUserSubmit 7 (onChangeUser Name ''Eve''
      (onChangeUser LibraryId ''user''
         (openUserModal USER None (mountAdminDashboard (seedData fixedZone 0 emptyStorage))))))
     = Some (''All fields are required.'', error)"
proof -
  let ?ls = "seedData fixedZone 0 emptyStorage"
  let ?a = "\<lparr>storage = ?ls, state = \<lparr>view = SIGNUP, currentUser = None\<rparr>,
       libId = ''admin'', password_s = ''secret'', name_s = ''Eve'', notification = None\<rparr>"
  let ?a' = "\<lparr>storage = ?ls, state = \<lparr>view = SIGNUP, currentUser = None\<rparr>,
       libId = ''admin'', password_s = '''', name_s = ''Eve'', notification = None\<rparr>"
  let ?m = "onChangeUser Name ''Eve'' (onChangeUser LibraryId ''user''
         (openUserModal USER None (mountAdminDashboard ?ls)))"
  let ?s = "onChangeUser Password ''pw'' ?m"
  have a: "asciiTrim (name_s ?a) \<noteq> [] \<and> asciiTrim (libId ?a) \<noteq> [] \<and>
           asciiTrim (password_s ?a) \<noteq> [] \<and>
           (\<exists>u \<in> set (getUsers (storage ?a)). libraryId u = libId ?a)"
    by (simp add: asciiTrim_def isSpace_def seedData_def emptyStorage_def getUsers_def
        initialUsers_def)
  have a': "asciiTrim (name_s ?a') = [] \<or> asciiTrim (libId ?a') = [] \<or>
            asciiTrim (password_s ?a') = []"
    by (simp add: asciiTrim_def)
  have s: "\<not> isUserEditMode ?s \<and> truthy (libraryId_uf (userForm ?s)) \<and>
           truthy (password_uf (userForm ?s)) \<and> truthy (name_uf (userForm ?s)) \<and>
           (\<exists>u \<in> set (users_ad ?s). Some (libraryId u) = libraryId_uf (userForm ?s))"
    by (simp add: openUserModal_def mountAdminDashboard_def blankUserForm_def seedData_def
        emptyStorage_def getUsers_def initialUsers_def)
  have m: "\<not> truthy (libraryId_uf (userForm ?m)) \<or> \<not> truthy (password_uf (userForm ?m)) \<or>
           \<not> truthy (name_uf (userForm ?m))"
    by (simp add: openUserModal_def mountAdminDashboard_def blankUserForm_def)
  from duplicate_library_id_rejected [of asciiTrim ?a 7 ?s] a s
  have 1: "handleSignup asciiTrim 7 ?a =
        ?a\<lparr>notification := Some (''Library ID already exists. Please choose another.'', error)\<rparr>"
    and 2: "handleUserSubmit 7 ?s =
        ?s\<lparr>notification_ad := Some (''This Library ID is already taken.'', error)\<rparr>"
    by blast+
  from duplicate_library_id_rejected [of asciiTrim ?a' 7 ?m] a' m
  have 3: "handleSignup asciiTrim 7 ?a' =
        ?a'\<lparr>notification := Some (''Please fill in all fields.'', error)\<rparr>"
    and 4: "handleUserSubmit 7 ?m =
        ?m\<lparr>notification_ad := Some (''All fields are required.'', error)\<rparr>"
    by blast+
  show ?thesis unfolding 1 2 3 4 by (simp add: openUserModal_def mountAdminDashboard_def)
qed

section \<open>Logging in\<close>

lemma find_distinct_key:
  "distinct (map f xs) \<Longrightarrow> x \<in> set xs \<Longrightarrow> find (\<lambda>u. f u = f x) xs = Some x"
  by (induction xs) (auto simp: image_iff)

lemma find_Some_mem: "find P xs = Some x \<Longrightarrow> x \<in> set xs \<and> P x"
  by (induction xs) (auto split: if_splits)

lemma login_success:
  assumes "findUser (storage a) (libId a) = Some u" "password u = Some (password_s a)"
    "role u = r"
  shows "handleLogin r a =
     \<lparr>storage = setSession u (storage a), state = \<lparr>view = DASHBOARD, currentUser = Some u\<rparr>,
      libId = [], password_s = [], name_s = [],
      notification = Some (''Welcome back, '' @ name_u u, success)\<rparr>"
  using assms by (simp add: handleLogin_def notify_def resetForm_def)

lemma login_wrong_role:
  assumes "findUser (storage a) (libId a) = Some u" "password u = Some (password_s a)"
    "role u \<noteq> r"
  shows "handleLogin r a =
     a\<lparr>notification := Some (''This account is not authorized for ''
          @ (if r = ADMIN then ''Admin'' else ''Student'') @ '' access.'', error)\<rparr>"
  using assms by (simp add: handleLogin_def notify_def)

lemma login_wrong_credentials:
  assumes "findUser (storage a) (libId a) = None \<or>
           (\<exists>u. findUser (storage a) (libId a) = Some u \<and> password u \<noteq> Some (password_s a))"
  shows "handleLogin r a = a\<lparr>notification := Some (''Invalid Library ID or Password.'', error)\<rparr>"
  using assms by (auto simp: handleLogin_def notify_def)

lemma login_succeeds_iff:
  "(\<exists>msg. notification (handleLogin r a) = Some (msg, success)) =
   (\<exists>u. findUser (storage a) (libId a) = Some u \<and> password u = Some (password_s a) \<and>
        role u = r)"
  by (auto simp: handleLogin_def notify_def resetForm_def split: option.splits)

lemma findUser_unique:
  assumes "distinct (map libraryId (getUsers (storage a)))"
  shows "(\<exists>u. findUser (storage a) (libId a) = Some u \<and> password u = Some pw \<and> role u = r) =
         (\<exists>u \<in> set (getUsers (storage a)).
            libraryId u = libId a \<and> password u = Some pw \<and> role u = r)"
proof
  assume "\<exists>u. findUser (storage a) (libId a) = Some u \<and> password u = Some pw \<and> role u = r"
  then show "\<exists>u \<in> set (getUsers (storage a)).
            libraryId u = libId a \<and> password u = Some pw \<and> role u = r"
    unfolding findUser_def by (blast dest: find_Some_mem)
next
  assume "\<exists>u \<in> set (getUsers (storage a)).
            libraryId u = libId a \<and> password u = Some pw \<and> role u = r"
  then obtain u where u: "u \<in> set (getUsers (storage a))" "libraryId u = libId a"
    "password u = Some pw" "role u = r" by blast
  from find_distinct_key [OF assms u(1)] u(2)
  have "findUser (storage a) (libId a) = Some u" by (simp add: findUser_def)
  with u show "\<exists>u. findUser (storage a) (libId a) = Some u \<and> password u = Some pw \<and> role u = r"
    by blast
qed

text \<open>
  Claim C6, as stated, fails on a user list the application can reach. The librarian edits
  John Doe's profile, giving him the library id ``admin'' and the password ``456'' (an edit
  does not check the id against the list). A user with library id ``admin'', password ``456''
  and role \<open>USER\<close> now exists, yet logging in at the student portal with ``admin'' and ``456''
  is turned down as wrong credentials and no session is set: \<open>findUser\<close> returns the first
  user with that id, the librarian.
\<close>

theorem login_counterexample:
  "getUsers (storage_ad (handleUserSubmit 9 (onChangeUser Password ''456''
      (onChangeUser LibraryId ''admin'' (openUserModal USER (Some (initialUsers ! 1))
         (mountAdminDashboard (seedData fixedZone 0 emptyStorage)))))))
     = [initialUsers ! 0, (initialUsers ! 1)\<lparr>libraryId := ''admin'', password := Some ''456''\<rparr>] \<and>
   role ((initialUsers ! 1)\<lparr>libraryId := ''admin'', password := Some ''456''\<rparr>) = USER \<and>
   handleLogin USER
     \<lparr>storage = storage_ad (handleUserSubmit 9 (onChangeUser Password ''456''
         (onChangeUser LibraryId ''admin'' (openUserModal USER (Some (initialUsers ! 1))
            (mountAdminDashboard (seedData fixedZone 0 emptyStorage)))))),
      state = \<lparr>view = LOGIN_USER, currentUser = None\<rparr>,
      libId = ''admin'', password_s = ''456'', name_s = [], notification = None\<rparr>
   = \<lparr>storage = storage_ad (handleUserSubmit 9 (onChangeUser Password ''456''
         (onChangeUser LibraryId ''admin'' (openUserModal USER (Some (initialUsers ! 1))
            (mountAdminDashboard (seedData fixedZone 0 emptyStorage)))))),
      state = \<lparr>view = LOGIN_USER, currentUser = None\<rparr>,
      libId = ''admin'', password_s = ''456'', name_s = [],
      notification = Some (''Invalid Library ID or Password.'', error)\<rparr>"
  by (simp add: handleLogin_def handleUserSubmit_def openUserModal_def mountAdminDashboard_def
      formOfUser_def spreadUser_def loadData_def notify_ad_def notify_def seedData_def
      emptyStorage_def getUsers_def saveUsers_def findUser_def initialUsers_def Let_def)

text \<open>
  Claim C6, amended. Let \<open>found\<close> be the first user on the stored list whose library id is the
  one typed (what \<open>findUser\<close> returns). Login succeeds, with the session and the current user
  set to \<open>found\<close> and the dashboard shown, exactly when \<open>found\<close> exists, its password is the
  secret typed and its role is the portal's. When there is no such user or the password of
  \<open>found\<close> differs, the outcome is the credential error; when the password matches and the
  role differs, it is the role error, a different message; in both cases nothing but the
  notification changes, so no session is set. On a list without repeated library ids, \<open>found\<close>
  is a user with that id, password and role if and only if some user on the list is.
\<close>

theorem login_outcomes:
  "(findUser (storage a) (libId a) = Some u \<and> password u = Some (password_s a) \<and> role u = r \<longrightarrow>
      handleLogin r a =
        \<lparr>storage = setSession u (storage a),
         state = \<lparr>view = DASHBOARD, currentUser = Some u\<rparr>,
         libId = [], password_s = [], name_s = [],
         notification = Some (''Welcome back, '' @ name_u u, success)\<rparr> \<and>
      getSession (storage (handleLogin r a)) = Some u) \<and>
   ((\<exists>msg. notification (handleLogin r a) = Some (msg, success)) =
    (\<exists>v. findUser (storage a) (libId a) = Some v \<and> password v = Some (password_s a) \<and>
         role v = r)) \<and>
   (findUser (storage a) (libId a) = None \<or>
    (\<exists>v. findUser (storage a) (libId a) = Some v \<and> password v \<noteq> Some (password_s a)) \<longrightarrow>
      handleLogin r a =
        a\<lparr>notification := Some (''Invalid Library ID or Password.'', error)\<rparr>) \<and>
   (findUser (storage a) (libId a) = Some u \<and> password u = Some (password_s a) \<and> role u \<noteq> r \<longrightarrow>
      handleLogin r a =
        a\<lparr>notification := Some (''This account is not authorized for ''
             @ (if r = ADMIN then ''Admin'' else ''Student'') @ '' access.'', error)\<rparr>) \<and>
   ''This account is not authorized for '' @ (if r = ADMIN then ''Admin'' else ''Student'')
       @ '' access.'' \<noteq> ''Invalid Library ID or Password.'' \<and>
   (distinct (map libraryId (getUsers (storage a))) \<longrightarrow>
      (\<exists>v. findUser (storage a) (libId a) = Some v \<and> password v = Some (password_s a) \<and>
           role v = r) =
      (\<exists>v \<in> set (getUsers (storage a)).
         libraryId v = libId a \<and> password v = Some (password_s a) \<and> role v = r))"
proof (intro conjI impI)
  show "(\<exists>msg. notification (handleLogin r a) = Some (msg, success)) =
    (\<exists>v. findUser (storage a) (libId a) = Some v \<and> password v = Some (password_s a) \<and>
         role v = r)"
    by (rule login_succeeds_iff)
  show "''This account is not authorized for '' @ (if r = ADMIN then ''Admin'' else ''Student'')
       @ '' access.'' \<noteq> ''Invalid Library ID or Password.''"
    by simp
next
  assume ok: "findUser (storage a) (libId a) = Some u \<and> password u = Some (password_s a) \<and>
              role u = r"
  then show eq: "handleLogin r a =
        \<lparr>storage = setSession u (storage a),
         state = \<lparr>view = DASHBOARD, currentUser = Some u\<rparr>,
         libId = [], password_s = [], name_s = [],
         notification = Some (''Welcome back, '' @ name_u u, success)\<rparr>"
    by (simp add: login_success)
  show "getSession (storage (handleLogin r a)) = Some u"
    unfolding eq by (simp add: getSession_def setSession_def)
next
  assume "findUser (storage a) (libId a) = None \<or>
    (\<exists>v. findUser (storage a) (libId a) = Some v \<and> password v \<noteq> Some (password_s a))"
  then show "handleLogin r a =
        a\<lparr>notification := Some (''Invalid Library ID or Password.'', error)\<rparr>"
    by (rule login_wrong_credentials)
next
  assume "findUser (storage a) (libId a) = Some u \<and> password u = Some (password_s a) \<and>
          role u \<noteq> r"
  then show "handleLogin r a =
        a\<lparr>notification := Some (''This account is not authorized for ''
             @ (if r = ADMIN then ''Admin'' else ''Student'') @ '' access.'', error)\<rparr>"
    by (simp add: login_wrong_role)
next
  assume "distinct (map libraryId (getUsers (storage a)))"
  then show "(\<exists>v. findUser (storage a) (libId a) = Some v \<and> password v = Some (password_s a) \<and>
           role v = r) =
      (\<exists>v \<in> set (getUsers (storage a)).
         libraryId v = libId a \<and> password v = Some (password_s a) \<and> role v = r)"
    by (rule findUser_unique)
qed

text \<open>On the seeded store: John Doe logs in at the student portal, mistypes his password,
  and tries the staff portal.\<close>

theorem login_outcomes_witness:
  "findUser (seedData fixedZone 0 emptyStorage) ''user'' = Some (initialUsers ! 1) \<and>
   distinct (map libraryId (getUsers (seedData fixedZone 0 emptyStorage))) \<and>
   getSession (storage (handleLogin USER
      \<lparr>storage = seedData fixedZone 0 emptyStorage,
       state = \<lparr>view = LOGIN_USER, currentUser = None\<rparr>,
       libId = ''user'', password_s = ''123'', name_s = [], notification = None\<rparr>))
     = Some (initialUsers ! 1) \<and>
   handleLogin USER
      \<lparr>storage = seedData fixedZone 0 emptyStorage,
       state = \<lparr>view = LOGIN_USER, currentUser = None\<rparr>,
       libId = ''user'', password_s = ''124'', name_s = [], notification = None\<rparr>
     = \<lparr>storage = seedData fixedZone 0 emptyStorage,
        state = \<lparr>view = LOGIN_USER, currentUser = None\<rparr>,
        libId = ''user'', password_s = ''124'', name_s = [],
        notification = Some (''Invalid Library ID or Password.'', error)\<rparr> \<and>
   handleLogin ADMIN
      \<lparr>storage = seedData fixedZone 0 emptyStorage,
       state = \<lparr>view = LOGIN_ADMIN, currentUser = None\<rparr>,
       libId = ''user'', password_s = ''123'', name_s = [], notification = None\<rparr>
     = \<lparr>storage = seedData fixedZone 0 emptyStorage,
        state = \<lparr>view = LOGIN_ADMIN, currentUser = None\<rparr>,
        libId = ''user'', password_s = ''123'', name_s = [],
        notification = Some (''This account is not authorized for Admin access.'', error)\<rparr>"
proof -
  let ?ls = "seedData fixedZone 0 emptyStorage"
  let ?u = "initialUsers ! 1"
  let ?a1 = "\<lparr>storage = ?ls, state = \<lparr>view = LOGIN_USER, currentUser = None\<rparr>,
       libId = ''user'', password_s = ''123'', name_s = [], notification = None\<rparr>"
  let ?a2 = "\<lparr>storage = ?ls, state = \<lparr>view = LOGIN_USER, currentUser = None\<rparr>,
       libId = ''user'', password_s = ''124'', name_s = [], notification = None\<rparr>"
  let ?a3 = "\<lparr>storage = ?ls, state = \<lparr>view = LOGIN_ADMIN, currentUser = None\<rparr>,
       libId = ''user'', password_s = ''123'', name_s = [], notification = None\<rparr>"
  have found: "findUser ?ls ''user'' = Some ?u"
    by (simp add: findUser_def seedData_def emptyStorage_def getUsers_def initialUsers_def)
  have uniq: "distinct (map libraryId (getUsers ?ls))"
    by (simp add: seedData_def emptyStorage_def getUsers_def initialUsers_def)
  have f1: "findUser (storage ?a1) (libId ?a1) = Some ?u \<and>
            password ?u = Some (password_s ?a1) \<and> role ?u = USER"
    using found by (simp add: initialUsers_def)
  have f2: "findUser (storage ?a2) (libId ?a2) = Some ?u \<and>
            password ?u \<noteq> Some (password_s ?a2)"
    using found by (simp add: initialUsers_def)
  have f3: "findUser (storage ?a3) (libId ?a3) = Some ?u \<and>
            password ?u = Some (password_s ?a3) \<and> role ?u \<noteq> ADMIN"
    using found by (simp add: initialUsers_def)
  from login_outcomes [of ?a1 ?u USER] f1
  have 1: "getSession (storage (handleLogin USER ?a1)) = Some ?u" by blast
  from login_outcomes [of ?a2 ?u USER] f2
  have 2: "handleLogin USER ?a2 =
     ?a2\<lparr>notification := Some (''Invalid Library ID or Password.'', error)\<rparr>" by blast
  from login_outcomes [of ?a3 ?u ADMIN] f3
  have 3: "handleLogin ADMIN ?a3 =
     ?a3\<lparr>notification := Some (''This account is not authorized for ''
             @ (if ADMIN = ADMIN then ''Admin'' else ''Student'') @ '' access.'', error)\<rparr>"
    by blast
  show ?thesis unfolding 2 3 using 1 found uniq by simp
qed

section \<open>Smart fill\<close>

lemma smartFill_no_data:
  assumes "outcome = Resolved None \<or> outcome = Rejected \<or> \<not> truthy (title_f (bookForm s))"
  shows "handleSmartFill outcome s = s\<lparr>notification_ad := notification_ad (handleSmartFill outcome s)\<rparr>"
  using assms
  by (auto simp: handleSmartFill_def notify_ad_def split: settled.splits option.splits)

lemma smartFill_data:
  "truthy (title_f (bookForm s)) \<Longrightarrow>
   bookForm (handleSmartFill (Resolved (Some d)) s) = smartFillMerge d (bookForm s)"
  by (simp add: handleSmartFill_def notify_ad_def)

lemma smartFillMerge_cover_kept:
  "coverUrl_f f = Some (Some c) \<Longrightarrow> c \<noteq> [] \<Longrightarrow> coverUrl_f (smartFillMerge d f) = Some (Some c)"
  by (simp add: smartFillMerge_def)

lemma smartFillMerge_cover_filled:
  "\<not> (\<exists>c. coverUrl_f f = Some (Some c) \<and> c \<noteq> []) \<Longrightarrow>
   coverUrl_f (smartFillMerge d f) = Some (coverUrl_ai d)"
  by (auto simp: smartFillMerge_def split: option.splits)

text \<open>
  Claim C7, as stated, fails: the librarian types the title ``Emma'' and the author
  ``Jane Manual'' into a new form, and a successful smart fill that names ``Jane Austen''
  replaces the author typed.
\<close>

theorem smart_fill_counterexample:
  "author_f (bookForm (onChangeBook Author ''Jane Manual'' (onChangeBook Title ''Emma''
      (openAddBookModal (mountAdminDashboard (seedData fixedZone 0 emptyStorage))))))
     = Some ''Jane Manual'' \<and>
   author_f (bookForm (handleSmartFill
      (Resolved (Some \<lparr>author_ai = ''Jane Austen'', genre_ai = ''Classic'',
                       description_ai = ''A novel of manners.'', coverUrl_ai = None\<rparr>))
      (onChangeBook Author ''Jane Manual'' (onChangeBook Title ''Emma''
         (openAddBookModal (mountAdminDashboard (seedData fixedZone 0 emptyStorage)))))))
     = Some ''Jane Austen'' \<and>
   Some ''Jane Austen'' \<noteq> Some ''Jane Manual''"
  by (simp add: handleSmartFill_def smartFillMerge_def notify_ad_def openAddBookModal_def
      blankBookForm_def mountAdminDashboard_def)

text \<open>
  Claim C7, amended. Let \<open>s'\<close> be the dashboard after \<open>handleSmartFill\<close>. When the result is
  \<open>null\<close>, the call fails, or the form has no title, nothing but the notification changes, so
  every form field is as before. When the result has data (and the form has a title), the
  author, genre and description of the form become the ones supplied, whatever was typed
  before; a cover already in the form (not empty) is kept, and only a missing or empty cover
  takes the cover supplied; the id, title, stand number and lending keys of the form are as
  before.
\<close>

theorem smart_fill_merge:
  assumes "s' = handleSmartFill outcome s"
  shows "(outcome = Resolved None \<or> outcome = Rejected \<or> \<not> truthy (title_f (bookForm s)) \<longrightarrow>
            s' = s\<lparr>notification_ad := notification_ad s'\<rparr> \<and> bookForm s' = bookForm s) \<and>
         (outcome = Resolved (Some d) \<and> truthy (title_f (bookForm s)) \<longrightarrow>
            author_f (bookForm s') = Some (author_ai d) \<and>
            genre_f (bookForm s') = Some (genre_ai d) \<and>
            description_f (bookForm s') = Some (description_ai d) \<and>
            (\<forall>c. coverUrl_f (bookForm s) = Some (Some c) \<and> c \<noteq> [] \<longrightarrow>
                 coverUrl_f (bookForm s') = Some (Some c)) \<and>
            (\<not> (\<exists>c. coverUrl_f (bookForm s) = Some (Some c) \<and> c \<noteq> []) \<longrightarrow>
                 coverUrl_f (bookForm s') = Some (coverUrl_ai d)) \<and>
            id_f (bookForm s') = id_f (bookForm s) \<and>
            title_f (bookForm s') = title_f (bookForm s) \<and>
            standNumber_f (bookForm s') = standNumber_f (bookForm s) \<and>
            isIssued_f (bookForm s') = isIssued_f (bookForm s) \<and>
            issuedToUserId_f (bookForm s') = issuedToUserId_f (bookForm s) \<and>
            issuedDate_f (bookForm s') = issuedDate_f (bookForm s))"
proof (intro conjI impI)
  assume no: "outcome = Resolved None \<or> outcome = Rejected \<or> \<not> truthy (title_f (bookForm s))"
  from smartFill_no_data [OF no]
  show same: "s' = s\<lparr>notification_ad := notification_ad s'\<rparr>" unfolding assms .
  show "bookForm s' = bookForm s" by (subst same) simp
next
  assume "outcome = Resolved (Some d) \<and> truthy (title_f (bookForm s))"
  then have f: "bookForm s' = smartFillMerge d (bookForm s)"
    unfolding assms by (simp add: smartFill_data)
  show "author_f (bookForm s') = Some (author_ai d)"
    "genre_f (bookForm s') = Some (genre_ai d)"
    "description_f (bookForm s') = Some (description_ai d)"
    "id_f (bookForm s') = id_f (bookForm s)"
    "title_f (bookForm s') = title_f (bookForm s)"
    "standNumber_f (bookForm s') = standNumber_f (bookForm s)"
    "isIssued_f (bookForm s') = isIssued_f (bookForm s)"
    "issuedToUserId_f (bookForm s') = issuedToUserId_f (bookForm s)"
    "issuedDate_f (bookForm s') = issuedDate_f (bookForm s)"
    unfolding f by (simp_all add: smartFillMerge_def)
  show "\<forall>c. coverUrl_f (bookForm s) = Some (Some c) \<and> c \<noteq> [] \<longrightarrow>
           coverUrl_f (bookForm s') = Some (Some c)"
    unfolding f by (simp add: smartFillMerge_cover_kept)
  show "coverUrl_f (bookForm s') = Some (coverUrl_ai d)"
    if "\<not> (\<exists>c. coverUrl_f (bookForm s) = Some (Some c) \<and> c \<noteq> [])"
    unfolding f using that by (rule smartFillMerge_cover_filled)
qed

text \<open>The librarian types a title, uploads a cover and asks for a smart fill: with data the
  uploaded cover stays and the author is the one supplied; with \<open>null\<close> the form is as it
  was.\<close>

theorem smart_fill_merge_witness:
  "truthy (title_f (bookForm (handleImageUpload (Some (Resolved ''data:image/jpeg;base64,AA''))
      (onChangeBook Title ''Emma''
         (openAddBookModal (mountAdminDashboard (seedData fixedZone 0 emptyStorage))))))) \<and>
   coverUrl_f (bookForm (handleSmartFill
      (Resolved (Some \<lparr>author_ai = ''Jane Austen'', genre_ai = ''Classic'',
                       description_ai = ''A novel of manners.'',
                       coverUrl_ai = Some ''https://picsum.photos/300/450''\<rparr>))
      (handleImageUpload (Some (Resolved ''data:image/jpeg;base64,AA''))
        (onChangeBook Title ''Emma''
          (openAddBookModal (mountAdminDashboard (seedData fixedZone 0 emptyStorage)))))))
     = Some (Some ''data:image/jpeg;base64,AA'') \<and>
   author_f (bookForm (handleSmartFill
      (Resolved (Some \<lparr>author_ai = ''Jane Austen'', genre_ai = ''Classic'',
                       description_ai = ''A novel of manners.'',
                       coverUrl_ai = Some ''https://picsum.photos/300/450''\<rparr>))
      (handleImageUpload (Some (Resolved ''data:image/jpeg;base64,AA''))
        (onChangeBook Title ''Emma''
          (openAddBookModal (mountAdminDashboard (seedData fixedZone 0 emptyStorage)))))))
     = Some ''Jane Austen'' \<and>
   bookForm (handleSmartFill (Resolved None)
      (handleImageUpload (Some (Resolved ''data:image/jpeg;base64,AA''))
        (onChangeBook Title ''Emma''
          (openAddBookModal (mountAdminDashboard (seedData fixedZone 0 emptyStorage))))))
     = bookForm (handleImageUpload (Some (Resolved ''data:image/jpeg;base64,AA''))
        (onChangeBook Title ''Emma''
          (openAddBookModal (mountAdminDashboard (seedData fixedZone 0 emptyStorage)))))"
proof -
  let ?s = "handleImageUpload (Some (Resolved ''data:image/jpeg;base64,AA''))
        (onChangeBook Title ''Emma''
          (openAddBookModal (mountAdminDashboard (seedData fixedZone 0 emptyStorage))))"
  let ?d = "\<lparr>author_ai = ''Jane Austen'', genre_ai = ''Classic'',
             description_ai = ''A novel of manners.'',
             coverUrl_ai = Some ''https://picsum.photos/300/450''\<rparr>"
  have t: "truthy (title_f (bookForm ?s))"
    by (simp add: handleImageUpload_def notify_ad_def openAddBookModal_def blankBookForm_def)
  have c: "coverUrl_f (bookForm ?s) = Some (Some ''data:image/jpeg;base64,AA'') \<and>
           ''data:image/jpeg;base64,AA'' \<noteq> []"
    by (simp add: handleImageUpload_def notify_ad_def)
  have a: "author_ai ?d = ''Jane Austen''" by simp
  from smart_fill_merge [OF refl, of "Resolved (Some ?d)" ?s ?d] t c
  have 1: "coverUrl_f (bookForm (handleSmartFill (Resolved (Some ?d)) ?s))
             = Some (Some ''data:image/jpeg;base64,AA'')"
    and 2: "author_f (bookForm (handleSmartFill (Resolved (Some ?d)) ?s)) = Some (author_ai ?d)"
    by blast+
  from smart_fill_merge [OF refl, of "Resolved None" ?s]
  have 3: "bookForm (handleSmartFill (Resolved None) ?s) = bookForm ?s" by blast
  from t 1 2 3 show ?thesis by (simp only: a simp_thms)
qed

section \<open>Searching the catalogue\<close>

lemma includes_js_sublist: "includes_js s q = sublist q s"
  by (induction s) (simp_all add: sublist_Cons_right)

lemma substring_includes_js: "substring q s = includes_js s q"
  by (simp add: substring_def includes_js_sublist sublist_def)

lemma filteredBooks_matches: "filteredBooks lower books q = filter (matches lower q) books"
  by (simp add: filteredBooks_def matches_def [abs_def] substring_includes_js)

text \<open>
  Claim C8. The search result is the list of the books that match, in the order of the
  collection: a book is in the result exactly when it is in the collection and the lowercased
  query is a substring of its lowercased title, author or genre. When the query is in no
  title and no author, the result is the list of the books whose genre has it.
\<close>

theorem search_filter:
  "filteredBooks lower books q = filter (matches lower q) books \<and>
   subseq (filteredBooks lower books q) books \<and>
   (b \<in> set (filteredBooks lower books q)) =
     (b \<in> set books \<and>
      (substring (lower q) (lower (title b)) \<or> substring (lower q) (lower (author b)) \<or>
       substring (lower q) (lower (genre b)))) \<and>
   ((\<forall>x \<in> set books. \<not> substring (lower q) (lower (title x)) \<and>
                      \<not> substring (lower q) (lower (author x))) \<longrightarrow>
      filteredBooks lower books q = filter (\<lambda>x. substring (lower q) (lower (genre x))) books)"
proof (intro conjI impI)
  show "filteredBooks lower books q = filter (matches lower q) books"
    by (rule filteredBooks_matches)
  show "subseq (filteredBooks lower books q) books"
    by (simp add: filteredBooks_matches)
  show "(b \<in> set (filteredBooks lower books q)) =
     (b \<in> set books \<and>
      (substring (lower q) (lower (title b)) \<or> substring (lower q) (lower (author b)) \<or>
       substring (lower q) (lower (genre b))))"
    by (simp add: filteredBooks_matches matches_def)
next
  assume "\<forall>x \<in> set books. \<not> substring (lower q) (lower (title x)) \<and>
                      \<not> substring (lower q) (lower (author x))"
  then show "filteredBooks lower books q
               = filter (\<lambda>x. substring (lower q) (lower (genre x))) books"
    unfolding filteredBooks_matches by (intro filter_cong refl) (simp add: matches_def)
qed

text \<open>On the seeded catalogue, the query ``TECH'' is in no title and no author, and finds
  ``Clean Code'' by its genre ``Technology''.\<close>

theorem search_filter_witness:
  "list_all (\<lambda>x. \<not> substring (asciiLower ''TECH'') (asciiLower (title x)) \<and>
                 \<not> substring (asciiLower ''TECH'') (asciiLower (author x)))
     (initialBooks fixedZone 0) \<and>
   filteredBooks asciiLower (initialBooks fixedZone 0) ''TECH'' = [initialBooks fixedZone 0 ! 2]"
proof -
  have q: "asciiLower ''TECH'' = ''tech''" by (simp add: asciiLower_def)
  have none: "list_all (\<lambda>x. \<not> substring (asciiLower ''TECH'') (asciiLower (title x)) \<and>
                 \<not> substring (asciiLower ''TECH'') (asciiLower (author x)))
     (initialBooks fixedZone 0)"
    unfolding q by (simp add: initialBooks_def asciiLower_def substring_includes_js)
  have genre: "filter (\<lambda>x. substring (asciiLower ''TECH'') (asciiLower (genre x)))
                 (initialBooks fixedZone 0) = [initialBooks fixedZone 0 ! 2]"
    unfolding q by (simp add: initialBooks_def asciiLower_def substring_includes_js)
  from search_filter [of asciiLower "initialBooks fixedZone 0" "''TECH''"] none
  have "filteredBooks asciiLower (initialBooks fixedZone 0) ''TECH''
          = filter (\<lambda>x. substring (asciiLower ''TECH'') (asciiLower (genre x)))
              (initialBooks fixedZone 0)"
    unfolding list_all_iff by blast
  with none genre show ?thesis by (simp only: simp_thms)
qed

section \<open>Editing a book\<close>

text \<open>What an open form carries besides the catalogue details, and what no form action
  touches.\<close>

lemma formAction_frame:
  "books_ad (formAction t act) = books_ad t \<and>
   storage_ad (formAction t act) = storage_ad t \<and>
   isEditMode (formAction t act) = isEditMode t \<and>
   id_f (bookForm (formAction t act)) = id_f (bookForm t) \<and>
   isIssued_f (bookForm (formAction t act)) = isIssued_f (bookForm t) \<and>
   issuedToUserId_f (bookForm (formAction t act)) = issuedToUserId_f (bookForm t) \<and>
   issuedDate_f (bookForm (formAction t act)) = issuedDate_f (bookForm t)"
proof (cases act)
  case (Change inp v)
  then show ?thesis by (cases inp) simp_all
next
  case (Upload upload)
  then show ?thesis
    by (simp add: handleImageUpload_def notify_ad_def split: option.splits settled.splits)
next
  case (SmartFill outcome)
  then show ?thesis
    by (simp add: handleSmartFill_def smartFillMerge_def notify_ad_def
        split: option.splits settled.splits)
qed

lemma formActions_frame:
  "books_ad (foldl formAction t acts) = books_ad t \<and>
   storage_ad (foldl formAction t acts) = storage_ad t \<and>
   isEditMode (foldl formAction t acts) = isEditMode t \<and>
   id_f (bookForm (foldl formAction t acts)) = id_f (bookForm t) \<and>
   isIssued_f (bookForm (foldl formAction t acts)) = isIssued_f (bookForm t) \<and>
   issuedToUserId_f (bookForm (foldl formAction t acts)) = issuedToUserId_f (bookForm t) \<and>
   issuedDate_f (bookForm (foldl formAction t acts)) = issuedDate_f (bookForm t)"
proof (induction acts arbitrary: t)
  case Nil
  show ?case by simp
next
  case (Cons act acts)
  show ?case using Cons [of "formAction t act"] formAction_frame [of t act] by simp
qed

lemma lending_spreadBook:
  "isIssued_f f = Some i \<Longrightarrow> issuedToUserId_f f = Some u \<Longrightarrow> issuedDate_f f = Some d \<Longrightarrow>
   lending (spreadBook b f) = (i, u, d)"
  by (simp add: lending_def spreadBook_def)

lemma bookSubmit_cases:
  "(handleBookSubmit now t = notify_ad (''Title and Stand Number are required.'', error) t) \<or>
   (isEditMode t \<and> truthy (id_f (bookForm t)) \<and>
    books_ad (handleBookSubmit now t) =
      map (\<lambda>b. if Some (id_b b) = id_f (bookForm t) then spreadBook b (bookForm t) else b)
        (books_ad t) \<and>
    getBooks (storage_ad (handleBookSubmit now t)) = books_ad (handleBookSubmit now t)) \<or>
   ((\<exists>nb. books_ad (handleBookSubmit now t) = books_ad t @ [nb]) \<and>
    getBooks (storage_ad (handleBookSubmit now t)) = books_ad (handleBookSubmit now t))"
  by (simp add: handleBookSubmit_def Let_def notify_ad_def loadData_def getBooks_saveBooks
      split: option.splits)

text \<open>
  Claim C9. The librarian opens the edit form on \<open>book\<close> from the dashboard \<open>s\<close>, changes
  catalogue details in any way the form allows (typing into its inputs, uploading a cover,
  smart fill), and saves; \<open>s'\<close> is the dashboard after the save. Every book of the old list is
  still in its place; where the old list has \<open>book\<close> itself, the new one has a book with the
  lending fields \<open>book\<close> had when the form was opened; a book with another id is as it was.
  Either nothing was written to the store (a required field was left empty) or the stored
  list is the new list.
\<close>

theorem edit_keeps_lending:
  assumes "s' = handleBookSubmit now (foldl formAction (handleEditBook book s) acts)"
  shows "length (books_ad s) \<le> length (books_ad s') \<and>
         (\<forall>i < length (books_ad s).
            (books_ad s ! i = book \<longrightarrow>
               isIssued (books_ad s' ! i) = isIssued book \<and>
               issuedToUserId (books_ad s' ! i) = issuedToUserId book \<and>
               issuedDate (books_ad s' ! i) = issuedDate book) \<and>
            (id_b (books_ad s ! i) \<noteq> id_b book \<longrightarrow> books_ad s' ! i = books_ad s ! i)) \<and>
         (storage_ad s' = storage_ad s \<or> getBooks (storage_ad s') = books_ad s')"
proof -
  let ?t = "foldl formAction (handleEditBook book s) acts"
  have frame: "books_ad ?t = books_ad s" "storage_ad ?t = storage_ad s"
    "id_f (bookForm ?t) = Some (id_b book)"
    "isIssued_f (bookForm ?t) = Some (isIssued book)"
    "issuedToUserId_f (bookForm ?t) = Some (issuedToUserId book)"
    "issuedDate_f (bookForm ?t) = Some (issuedDate book)"
    using formActions_frame [of "handleEditBook book s" acts]
    by (simp_all add: handleEditBook_def formOfBook_def)
  have spread: "lending (spreadBook b (bookForm ?t)) = lending book" for b
    using lending_spreadBook [OF frame(4-6)] by (simp add: lending_def)
  from bookSubmit_cases [of now ?t]
  consider
    (rejected) "s' = notify_ad (''Title and Stand Number are required.'', error) ?t"
  | (edited) "books_ad s' =
      map (\<lambda>b. if id_b b = id_b book then spreadBook b (bookForm ?t) else b) (books_ad s)"
      "getBooks (storage_ad s') = books_ad s'"
  | (added) nb where "books_ad s' = books_ad s @ [nb]" "getBooks (storage_ad s') = books_ad s'"
    unfolding assms frame by auto
  then show ?thesis
  proof cases
    case rejected
    then have "books_ad s' = books_ad s" "storage_ad s' = storage_ad s"
      by (simp_all add: notify_ad_def frame)
    then show ?thesis by simp
  next
    case edited
    have "lending (books_ad s' ! i) = lending book"
      if "i < length (books_ad s)" "books_ad s ! i = book" for i
      using that spread by (simp add: edited(1))
    then have "isIssued (books_ad s' ! i) = isIssued book \<and>
               issuedToUserId (books_ad s' ! i) = issuedToUserId book \<and>
               issuedDate (books_ad s' ! i) = issuedDate book"
      if "i < length (books_ad s)" "books_ad s ! i = book" for i
      using that by (simp add: lending_def)
    moreover have "books_ad s' ! i = books_ad s ! i"
      if "i < length (books_ad s)" "id_b (books_ad s ! i) \<noteq> id_b book" for i
      using that by (simp add: edited(1))
    moreover have "length (books_ad s') = length (books_ad s)"
      by (simp add: edited(1))
    ultimately show ?thesis using edited(2) by simp
  next
    case added
    then show ?thesis by (simp add: nth_append)
  qed
qed

text \<open>On the seeded store: the librarian opens ``Clean Code'', on loan to John Doe, retitles
  it and moves it to another stand, and saves.\<close>

theorem edit_keeps_lending_witness:
  "(2::nat) < length (books_ad (mountAdminDashboard (seedData fixedZone 0 emptyStorage))) \<and>
   books_ad (mountAdminDashboard (seedData fixedZone 0 emptyStorage)) ! 2
     = initialBooks fixedZone 0 ! 2 \<and>
   isIssued (initialBooks fixedZone 0 ! 2) \<and>
   title (books_ad (handleBookSubmit 9 (foldl formAction
       (handleEditBook (initialBooks fixedZone 0 ! 2)
          (mountAdminDashboard (seedData fixedZone 0 emptyStorage)))
       [Change Title ''Cleaner Code'', Change StandNumber ''T6''])) ! 2) = ''Cleaner Code'' \<and>
   isIssued (books_ad (handleBookSubmit 9 (foldl formAction
       (handleEditBook (initialBooks fixedZone 0 ! 2)
          (mountAdminDashboard (seedData fixedZone 0 emptyStorage)))
       [Change Title ''Cleaner Code'', Change StandNumber ''T6''])) ! 2) \<and>
   issuedToUserId (books_ad (handleBookSubmit 9 (foldl formAction
       (handleEditBook (initialBooks fixedZone 0 ! 2)
          (mountAdminDashboard (seedData fixedZone 0 emptyStorage)))
       [Change Title ''Cleaner Code'', Change StandNumber ''T6''])) ! 2) = Some ''user1'' \<and>
   books_ad (handleBookSubmit 9 (foldl formAction
       (handleEditBook (initialBooks fixedZone 0 ! 2)
          (mountAdminDashboard (seedData fixedZone 0 emptyStorage)))
       [Change Title ''Cleaner Code'', Change StandNumber ''T6''])) ! 0
     = initialBooks fixedZone 0 ! 0"
proof -
  let ?s = "mountAdminDashboard (seedData fixedZone 0 emptyStorage)"
  let ?b3 = "initialBooks fixedZone 0 ! 2"
  let ?s' = "handleBookSubmit 9 (foldl formAction (handleEditBook ?b3 ?s)
       [Change Title ''Cleaner Code'', Change StandNumber ''T6''])"
  have bs: "books_ad ?s = initialBooks fixedZone 0"
    by (simp add: mountAdminDashboard_def seedData_def emptyStorage_def getBooks_def)
  have h: "(2::nat) < length (books_ad ?s)" "(0::nat) < length (books_ad ?s)"
    "books_ad ?s ! 2 = ?b3" "id_b (books_ad ?s ! 0) \<noteq> id_b ?b3"
    by (simp_all add: bs) (simp_all add: initialBooks_def)
  have b3: "isIssued ?b3" "issuedToUserId ?b3 = Some ''user1''"
    by (simp_all add: initialBooks_def)
  have t: "title (books_ad ?s' ! 2) = ''Cleaner Code''"
    by (simp add: handleBookSubmit_def handleEditBook_def formOfBook_def spreadBook_def
        loadData_def notify_ad_def getBooks_saveBooks Let_def bs)
       (simp add: initialBooks_def spreadBook_def)
  from edit_keeps_lending [of ?s' 9 ?b3 ?s "[Change Title ''Cleaner Code'',
      Change StandNumber ''T6'']", OF refl] h
  have "isIssued (books_ad ?s' ! 2) = isIssued ?b3"
    and "issuedToUserId (books_ad ?s' ! 2) = issuedToUserId ?b3"
    and "books_ad ?s' ! 0 = books_ad ?s ! 0"
    by blast+
  with h b3 t show ?thesis by (simp only: bs simp_thms)
qed

section \<open>Deleting a user\<close>

lemma find_filter_none: "find (\<lambda>u. Some (f u) = Some x) (filter (\<lambda>u. f u \<noteq> x) us) = None"
  by (simp add: find_None_iff)

lemma length_filter_distinct:
  "distinct (map f xs) \<Longrightarrow> x \<in> f ` set xs \<Longrightarrow> length (filter (\<lambda>u. f u \<noteq> x) xs) + 1 = length xs"
proof (induction xs)
  case Nil
  then show ?case by simp
next
  case (Cons a xs)
  show ?case
  proof (cases "f a = x")
    case True
    with Cons.prems have "x \<notin> f ` set xs" by auto
    then have "filter (\<lambda>u. f u \<noteq> x) xs = xs" by (auto simp: filter_id_conv)
    with True show ?thesis by simp
  next
    case False
    with Cons show ?thesis by auto
  qed
qed

lemma deleteUser_users:
  "users_ad (handleDeleteUser userId s) = filter (\<lambda>u. id_u u \<noteq> userId) (users_ad s)"
  by (simp add: handleDeleteUser_def Let_def notify_ad_def loadData_def getUsers_saveUsers)

lemma deleteUser_storage:
  "storage_ad (handleDeleteUser userId s) =
     saveUsers (filter (\<lambda>u. id_u u \<noteq> userId) (users_ad s)) (storage_ad s)"
  by (simp add: handleDeleteUser_def Let_def notify_ad_def loadData_def)

text \<open>
  Claim C10. Let \<open>s'\<close> be the dashboard after \<open>handleDeleteUser\<close> on the id \<open>userId\<close>. The
  stored users are the old ones without those of that id, in their old order (one record
  fewer when ids are distinct and the id was there). The stored book collection is the same
  value as before, so a book issued to \<open>userId\<close> is still stored with the same lending fields;
  no remaining user has that id, and the book card finds no borrower for it.
\<close>

theorem delete_user_leaves_books:
  assumes "s' = handleDeleteUser userId s"
  shows "getUsers (storage_ad s') = filter (\<lambda>u. id_u u \<noteq> userId) (users_ad s) \<and>
         users_ad s' = getUsers (storage_ad s') \<and>
         set (getUsers (storage_ad s')) = set (users_ad s) - {u. id_u u = userId} \<and>
         (distinct (map id_u (users_ad s)) \<and> userId \<in> id_u ` set (users_ad s) \<longrightarrow>
            length (getUsers (storage_ad s')) + 1 = length (users_ad s)) \<and>
         vaymn_books (storage_ad s') = vaymn_books (storage_ad s) \<and>
         getBooks (storage_ad s') = getBooks (storage_ad s) \<and>
         (\<forall>b \<in> set (getBooks (storage_ad s)).
            issuedToUserId b = Some userId \<longrightarrow>
              b \<in> set (getBooks (storage_ad s')) \<and>
              (\<forall>u \<in> set (getUsers (storage_ad s')). id_u u \<noteq> userId) \<and>
              issuedTo (users_ad s') b = None \<and>
              issuedToName (users_ad s') b = ''Unknown User'')"
proof -
  have st: "storage_ad s' = saveUsers (filter (\<lambda>u. id_u u \<noteq> userId) (users_ad s)) (storage_ad s)"
    unfolding assms by (rule deleteUser_storage)
  have us: "users_ad s' = filter (\<lambda>u. id_u u \<noteq> userId) (users_ad s)"
    unfolding assms by (rule deleteUser_users)
  have gu: "getUsers (storage_ad s') = filter (\<lambda>u. id_u u \<noteq> userId) (users_ad s)"
    by (simp add: st getUsers_saveUsers)
  have gb: "getBooks (storage_ad s') = getBooks (storage_ad s)"
    by (simp add: st getBooks_saveUsers)
  have vb: "vaymn_books (storage_ad s') = vaymn_books (storage_ad s)"
    by (simp add: st saveUsers_def)
  have len: "distinct (map id_u (users_ad s)) \<and> userId \<in> id_u ` set (users_ad s) \<longrightarrow>
            length (getUsers (storage_ad s')) + 1 = length (users_ad s)"
    unfolding gu using length_filter_distinct [of id_u "users_ad s" userId] by blast
  have set: "set (getUsers (storage_ad s')) = set (users_ad s) - {u. id_u u = userId}"
    unfolding gu by auto
  have dangling: "issuedTo (users_ad s') b = None \<and> issuedToName (users_ad s') b = ''Unknown User''"
    if "issuedToUserId b = Some userId" for b
    using that find_filter_none [of id_u userId "users_ad s"]
    by (simp add: issuedTo_def issuedToName_def us)
  show ?thesis
    using gu us gb vb len set dangling by (simp add: gu)
qed

text \<open>On the seeded store: John Doe, who holds ``Clean Code'', is deleted.\<close>

theorem delete_user_leaves_books_witness:
  "distinct (map id_u (users_ad (mountAdminDashboard (seedData fixedZone 0 emptyStorage)))) \<and>
   ''user1'' \<in> id_u ` set (users_ad (mountAdminDashboard (seedData fixedZone 0 emptyStorage))) \<and>
   initialBooks fixedZone 0 ! 2
     \<in> set (getBooks (storage_ad (mountAdminDashboard (seedData fixedZone 0 emptyStorage)))) \<and>
   issuedToUserId (initialBooks fixedZone 0 ! 2) = Some ''user1'' \<and>
   isIssued (initialBooks fixedZone 0 ! 2) \<and>
   initialBooks fixedZone 0 ! 2
     \<in> set (getBooks (storage_ad (handleDeleteUser ''user1''
                (mountAdminDashboard (seedData fixedZone 0 emptyStorage))))) \<and>
   length (getUsers (storage_ad (handleDeleteUser ''user1''
                (mountAdminDashboard (seedData fixedZone 0 emptyStorage))))) + 1 = 2 \<and>
   issuedToName (users_ad (handleDeleteUser ''user1''
                (mountAdminDashboard (seedData fixedZone 0 emptyStorage))))
       (initialBooks fixedZone 0 ! 2) = ''Unknown User''"
proof -
  let ?s = "mountAdminDashboard (seedData fixedZone 0 emptyStorage)"
  let ?b3 = "initialBooks fixedZone 0 ! 2"
  have us: "users_ad ?s = initialUsers"
    by (simp add: mountAdminDashboard_def seedData_def emptyStorage_def getUsers_def)
  have bs: "getBooks (storage_ad ?s) = initialBooks fixedZone 0"
    by (simp add: mountAdminDashboard_def seedData_def emptyStorage_def getBooks_def)
  have h1: "distinct (map id_u (users_ad ?s))" "''user1'' \<in> id_u ` set (users_ad ?s)"
    "length (users_ad ?s) = 2"
    by (simp_all add: us initialUsers_def)
  have h2: "?b3 \<in> set (getBooks (storage_ad ?s))" "issuedToUserId ?b3 = Some ''user1''"
    "isIssued ?b3"
    by (simp_all add: bs initialBooks_def)
  from delete_user_leaves_books [OF refl, of "''user1''" ?s] h1 h2
  have "?b3 \<in> set (getBooks (storage_ad (handleDeleteUser ''user1'' ?s)))"
    and "length (getUsers (storage_ad (handleDeleteUser ''user1'' ?s))) + 1 = 2"
    and "issuedToName (users_ad (handleDeleteUser ''user1'' ?s)) ?b3 = ''Unknown User''"
    by metis+
  then show ?thesis using h1 h2 by (simp only: simp_thms)
qed

end
